(* ===== verification/Prelude.thy ===== *)
theory Prelude
  imports Main
begin

text \<open>
  Shared vocabulary of the development.  JavaScript event handlers run to
  completion or stop at the first uncaught exception, keeping every effect made
  before it; the type \<open>('e, 's) exc\<close> is that outcome (the exception, if any,
  and the state reached) and \<open>exc_bind\<close> is statement sequencing.  The list
  operations \<open>remove_nth\<close> (DOM \<open>li.remove()\<close>) and \<open>update_first\<close>
  (\<open>find\<close> followed by a mutation of the found object) are the two list
  primitives of \<open>src/scripts.js\<close> that Main has no name for.
\<close>

named_theorems handler_simps "unfolding rules of the handlers of src/scripts.js"
named_theorems inv_simps "facts that carry the invariant proofs"

type_synonym ('e, 's) exc = "'e option \<times> 's"

definition exc_bind :: "('e, 's) exc \<Rightarrow> ('s \<Rightarrow> ('e, 's) exc) \<Rightarrow> ('e, 's) exc" where
  "exc_bind r f = (case r of (None, s) \<Rightarrow> f s | (Some e, s) \<Rightarrow> (Some e, s))"

definition remove_nth :: "nat \<Rightarrow> 'a list \<Rightarrow> 'a list" where
  "remove_nth i xs = take i xs @ drop (Suc i) xs"

fun update_first :: "('a \<Rightarrow> bool) \<Rightarrow> ('a \<Rightarrow> 'a) \<Rightarrow> 'a list \<Rightarrow> 'a list" where
  "update_first P f [] = []"
| "update_first P f (x # xs) = (if P x then f x # xs else x # update_first P f xs)"

lemma exc_bind_None [simp]: "exc_bind (None, s) f = f s"
  by (simp add: exc_bind_def)

lemma exc_bind_Some [simp]: "exc_bind (Some e, s) f = (Some e, s)"
  by (simp add: exc_bind_def)

lemma exc_bind_assoc: "exc_bind (exc_bind r f) g = exc_bind r (\<lambda>s. exc_bind (f s) g)"
  by (cases r) (auto simp: exc_bind_def split: option.splits)

lemma remove_nth_Cons_0 [simp]: "remove_nth 0 (x # xs) = xs"
  by (simp add: remove_nth_def)

lemma remove_nth_Cons_Suc [simp]: "remove_nth (Suc i) (x # xs) = x # remove_nth i xs"
  by (simp add: remove_nth_def)

lemma length_remove_nth [simp]: "i < length xs \<Longrightarrow> length (remove_nth i xs) = length xs - 1"
  by (simp add: remove_nth_def)

lemma remove_nth_beyond [simp]: "length xs \<le> i \<Longrightarrow> remove_nth i xs = xs"
  by (simp add: remove_nth_def)

lemma length_filter_remove_nth:
  assumes "i < length xs"
  shows "length (filter P xs) = length (filter P (remove_nth i xs)) + (if P (xs ! i) then 1 else 0)"
proof -
  have "xs = take i xs @ xs ! i # drop (Suc i) xs"
    using assms by (rule id_take_nth_drop)
  then have "filter P xs = filter P (take i xs) @ filter P [xs ! i] @ filter P (drop (Suc i) xs)"
    by (metis append_Cons append_Nil filter_append)
  then show ?thesis by (simp add: remove_nth_def)
qed

lemma map_remove_nth: "map f (remove_nth i xs) = remove_nth i (map f xs)"
  by (simp add: remove_nth_def take_map drop_map)

lemma filter_map_remove_nth_mem:
  "i < length xs \<Longrightarrow> x \<in> set (remove_nth i xs) \<Longrightarrow> x \<in> set xs"
  by (auto simp: remove_nth_def dest: in_set_takeD in_set_dropD)

lemma length_update_first [simp]: "length (update_first P f xs) = length xs"
  by (induction xs) auto

lemma update_first_no_match: "\<forall>x \<in> set xs. \<not> P x \<Longrightarrow> update_first P f xs = xs"
  by (induction xs) auto

lemma map_update_first:
  "(\<And>x. g (f x) = g x) \<Longrightarrow> map g (update_first P f xs) = map g xs"
  by (induction xs) auto

lemma exc_bind_preserve:
  "P (snd r) \<Longrightarrow> (\<And>s. P s \<Longrightarrow> P (snd (f s))) \<Longrightarrow> P (snd (exc_bind r f))"
  by (cases r) (auto simp: exc_bind_def split: option.splits)

lemma length_filter_list_update:
  "i < length xs \<Longrightarrow>
   length (filter P (xs[i := y])) + (if P (xs ! i) then 1 else 0) =
   length (filter P xs) + (if P y then 1 else 0)"
proof (induction xs arbitrary: i)
  case Nil
  then show ?case by simp
next
  case (Cons x xs)
  then show ?case by (cases i) auto
qed

lemma update_first_at:
  "i < length xs \<Longrightarrow> P (xs ! i) \<Longrightarrow> \<forall>j < i. \<not> P (xs ! j) \<Longrightarrow> update_first P f xs = xs[i := f (xs ! i)]"
proof (induction xs arbitrary: i)
  case (Cons x xs)
  show ?case
  proof (cases i)
    case 0
    with Cons.prems show ?thesis by simp
  next
    case (Suc k)
    with Cons.prems have "\<not> P x" by auto
    moreover have "update_first P f xs = xs[k := f (xs ! k)]"
      using Cons.prems Suc by (intro Cons.IH) auto
    ultimately show ?thesis using Suc by simp
  qed
qed simp

lemma filter_unique_at:
  "i < length xs \<Longrightarrow> P (xs ! i) \<Longrightarrow> \<forall>j < length xs. j \<noteq> i \<longrightarrow> \<not> P (xs ! j) \<Longrightarrow>
   filter (\<lambda>x. \<not> P x) xs = remove_nth i xs"
proof (induction xs arbitrary: i)
  case (Cons x xs)
  show ?case
  proof (cases i)
    case 0
    have "\<not> P y" if "y \<in> set xs" for y
    proof -
      obtain j where "j < length xs" and "xs ! j = y" using \<open>y \<in> set xs\<close> by (auto simp: in_set_conv_nth)
      then show ?thesis using Cons.prems(3) 0 by (metis Suc_less_eq length_Cons nat.distinct(1) nth_Cons_Suc)
    qed
    with 0 Cons.prems show ?thesis by simp
  next
    case (Suc k)
    with Cons.prems have "\<not> P x" by auto
    moreover have "filter (\<lambda>x. \<not> P x) xs = remove_nth k xs"
      using Cons.prems Suc by (intro Cons.IH) auto
    ultimately show ?thesis using Suc by simp
  qed
qed simp

lemma distinct_remove_nth: "distinct xs \<Longrightarrow> distinct (remove_nth i xs)"
  by (simp add: remove_nth_def set_take_disj_set_drop_if_distinct)

lemma nth_mem_remove_nth:
  "j < length xs \<Longrightarrow> j \<noteq> i \<Longrightarrow> xs ! j \<in> set (remove_nth i xs)"
proof (induction xs arbitrary: i j)
  case (Cons x xs)
  then show ?case by (cases i; cases j) auto
qed simp

end
