(* ===== verification/JsValues.thy ===== *)
theory JsValues
  imports Prelude
begin

text \<open>
  The JavaScript values that \<open>src/scripts.js\<close> handles: everything
  \<open>JSON.parse\<close> can return (null, booleans, numbers, strings, arrays, objects)
  and \<open>undefined\<close>, which a missing property read yields.  Numbers are
  integers here (the program only ever produces counters and reads back what it
  wrote); strings are lists of characters read as code points U+0000..U+00FF.
  The theory gives the coercions the program relies on: truthiness
  (\<open>if (got)\<close>, \<open>|| []\<close>), \<open>ToString\<close> (string concatenation),
  the \<open>textContent\<close> setter, property reads (\<open>obj.text\<close>,
  \<open>saved.length\<close>), the \<open>JSON.parse (JSON.stringify v)\<close> round trip of
  \<open>localStorage\<close>, and \<open>String.prototype.trim\<close>.
\<close>

datatype jsval =
    JUndef
  | JNull
  | JBool bool
  | JNum int
  | JStr string
  | JArr "jsval list"
  | JObj "(string \<times> jsval) list"

datatype js_error = TypeError | SyntaxError

subsection \<open>Truthiness\<close>

fun truthy :: "jsval \<Rightarrow> bool" where
  "truthy JUndef = False"
| "truthy JNull = False"
| "truthy (JBool b) = b"
| "truthy (JNum n) = (n \<noteq> 0)"
| "truthy (JStr s) = (s \<noteq> [])"
| "truthy (JArr xs) = True"
| "truthy (JObj kvs) = True"

subsection \<open>ToString and the textContent setter\<close>

fun nat_to_dec :: "nat \<Rightarrow> string" where
  "nat_to_dec n =
     (if n < 10 then [char_of (48 + n)] else nat_to_dec (n div 10) @ [char_of (48 + n mod 10)])"

declare nat_to_dec.simps [simp del]

definition int_to_dec :: "int \<Rightarrow> string" where
  "int_to_dec i = (if i < 0 then CHR ''-'' # nat_to_dec (nat (- i)) else nat_to_dec (nat i))"

fun join_comma :: "string list \<Rightarrow> string" where
  "join_comma [] = []"
| "join_comma [s] = s"
| "join_comma (s # ss) = s @ CHR '','' # join_comma ss"

text \<open>\<open>Array.prototype.join\<close> writes null and undefined elements as empty strings.\<close>

fun js_to_string :: "jsval \<Rightarrow> string" where
  "js_to_string JUndef = ''undefined''"
| "js_to_string JNull = ''null''"
| "js_to_string (JBool b) = (if b then ''true'' else ''false'')"
| "js_to_string (JNum n) = int_to_dec n"
| "js_to_string (JStr s) = s"
| "js_to_string (JArr xs) =
     join_comma (map (\<lambda>v. if v = JUndef \<or> v = JNull then [] else js_to_string v) xs)"
| "js_to_string (JObj kvs) = ''[object Object]''"

text \<open>\<open>textContent\<close> is a nullable DOMString: null and undefined clear it.\<close>

definition dom_text :: "jsval \<Rightarrow> string" where
  "dom_text v = (if v = JUndef \<or> v = JNull then [] else js_to_string v)"

subsection \<open>Property reads\<close>

text \<open>
  A read of a property on null or undefined throws a TypeError.  The program
  reads \<open>length\<close>, \<open>text\<close>, \<open>got\<close>, \<open>username\<close> and \<open>email\<close>; of
  these only \<open>length\<close> is defined by a prototype (arrays and strings), so a
  read of the others on a primitive is undefined, and on an object it is the
  object's own property.
\<close>

fun get_prop :: "jsval \<Rightarrow> string \<Rightarrow> js_error + jsval" where
  "get_prop JUndef k = Inl TypeError"
| "get_prop JNull k = Inl TypeError"
| "get_prop (JArr xs) k = Inr (if k = ''length'' then JNum (int (length xs)) else JUndef)"
| "get_prop (JStr s) k = Inr (if k = ''length'' then JNum (int (length s)) else JUndef)"
| "get_prop (JObj kvs) k = Inr (case map_of kvs k of Some v \<Rightarrow> v | None \<Rightarrow> JUndef)"
| "get_prop (JBool b) k = Inr JUndef"
| "get_prop (JNum n) k = Inr JUndef"

subsection \<open>The JSON round trip\<close>

text \<open>
  \<open>JSON.parse (JSON.stringify v)\<close> for a value \<open>v\<close> that is not undefined:
  object members whose value is undefined are dropped, undefined array elements
  become null, everything else is kept.
\<close>

fun json_rt :: "jsval \<Rightarrow> jsval" where
  "json_rt (JArr xs) = JArr (map (\<lambda>v. if v = JUndef then JNull else json_rt v) xs)"
| "json_rt (JObj kvs) = JObj (map (\<lambda>(k, v). (k, json_rt v)) (filter (\<lambda>(k, v). v \<noteq> JUndef) kvs))"
| "json_rt JUndef = JUndef"
| "json_rt JNull = JNull"
| "json_rt (JBool b) = JBool b"
| "json_rt (JNum n) = JNum n"
| "json_rt (JStr s) = JStr s"

text \<open>A JSON value: no undefined anywhere inside it.\<close>

fun is_json :: "jsval \<Rightarrow> bool" where
  "is_json JUndef = False"
| "is_json (JArr xs) = (\<forall>v \<in> set xs. is_json v)"
| "is_json (JObj kvs) = (\<forall>kv \<in> set kvs. is_json (snd kv))"
| "is_json v = True"

subsection \<open>String.prototype.trim\<close>

text \<open>
  ECMAScript white space and line terminators among the code points below 256:
  tab, line feed, vertical tab, form feed, carriage return, space and no-break
  space.
\<close>

definition js_ws :: "char \<Rightarrow> bool" where
  "js_ws c \<longleftrightarrow> c \<in> set [CHR 0x09, CHR 0x0A, CHR 0x0B, CHR 0x0C, CHR 0x0D, CHR 0x20, CHR 0xA0]"

definition js_trim :: "string \<Rightarrow> string" where
  "js_trim s = rev (dropWhile js_ws (rev (dropWhile js_ws s)))"

subsection \<open>Lemmas\<close>

lemma dom_text_JStr [simp]: "dom_text (JStr s) = s"
  by (simp add: dom_text_def)

lemma js_ws_simps [simp]:
  "js_ws CHR '' ''" "js_ws (CHR 0x09)" "js_ws (CHR 0x0A)" "js_ws (CHR 0x0D)" "js_ws (CHR 0xA0)"
  by (simp_all add: js_ws_def)

lemma dropWhile_eq_Nil_iff: "dropWhile P xs = [] \<longleftrightarrow> (\<forall>x \<in> set xs. P x)"
  by (induction xs) auto

lemma dropWhile_hd_id: "xs \<noteq> [] \<Longrightarrow> \<not> P (hd xs) \<Longrightarrow> dropWhile P xs = xs"
  by (cases xs) auto

lemma all_set_dropWhile: "(\<forall>x \<in> set (dropWhile P xs). P x) \<longleftrightarrow> (\<forall>x \<in> set xs. P x)"
  by (induction xs) auto

lemma js_trim_Nil_iff: "js_trim s = [] \<longleftrightarrow> (\<forall>c \<in> set s. js_ws c)"
  by (simp add: js_trim_def dropWhile_eq_Nil_iff all_set_dropWhile)

lemma js_trim_hd: "js_trim s \<noteq> [] \<Longrightarrow> \<not> js_ws (hd (js_trim s))"
proof -
  assume ne: "js_trim s \<noteq> []"
  let ?d = "dropWhile js_ws s"
  let ?e = "dropWhile js_ws (rev ?d)"
  have "?e \<noteq> []" using ne by (simp add: js_trim_def)
  have "rev ?d = takeWhile js_ws (rev ?d) @ ?e" by simp
  then have d: "?d = rev ?e @ rev (takeWhile js_ws (rev ?d))"
    by (metis rev_append rev_rev_ident)
  have "?d \<noteq> []"
  proof
    assume "?d = []"
    then have "js_trim s = []" by (simp add: js_trim_def all_set_dropWhile)
    with ne show False by simp
  qed
  then have "\<not> js_ws (hd ?d)" by (simp add: hd_dropWhile)
  moreover have "hd ?d = hd (rev ?e)"
    using d \<open>?e \<noteq> []\<close> by (metis hd_append2 Nil_is_rev_conv)
  ultimately show ?thesis by (simp add: js_trim_def)
qed

lemma js_trim_last: "js_trim s \<noteq> [] \<Longrightarrow> \<not> js_ws (last (js_trim s))"
proof -
  assume ne: "js_trim s \<noteq> []"
  let ?r = "dropWhile js_ws (rev (dropWhile js_ws s))"
  have "?r \<noteq> []" using ne by (simp add: js_trim_def)
  then have "\<not> js_ws (hd ?r)" by (simp add: hd_dropWhile)
  then show ?thesis using \<open>?r \<noteq> []\<close> by (simp add: js_trim_def last_rev)
qed

lemma js_trim_no_ws_ends:
  assumes "s \<noteq> []" and "\<not> js_ws (hd s)" and "\<not> js_ws (last s)"
  shows "js_trim s = s"
proof -
  have "dropWhile js_ws s = s" using assms(1,2) by (rule dropWhile_hd_id)
  moreover have "dropWhile js_ws (rev s) = rev s"
    using assms(1,3) by (intro dropWhile_hd_id) (simp_all add: hd_rev)
  ultimately show ?thesis by (simp add: js_trim_def)
qed

lemma js_trim_idem [simp]: "js_trim (js_trim s) = js_trim s"
proof (cases "js_trim s = []")
  case True
  have "js_trim [] = []" by (simp add: js_trim_def)
  with True show ?thesis by simp
next
  case False
  then show ?thesis by (simp add: js_trim_no_ws_ends js_trim_hd js_trim_last)
qed

lemma js_trim_split:
  "\<exists>a b. s = a @ js_trim s @ b \<and> (\<forall>c \<in> set a. js_ws c) \<and> (\<forall>c \<in> set b. js_ws c)"
proof -
  let ?d = "dropWhile js_ws s"
  let ?e = "dropWhile js_ws (rev ?d)"
  have s: "s = takeWhile js_ws s @ ?d" by simp
  have "rev ?d = takeWhile js_ws (rev ?d) @ ?e" by simp
  then have "?d = rev ?e @ rev (takeWhile js_ws (rev ?d))"
    by (metis rev_append rev_rev_ident)
  then have "s = takeWhile js_ws s @ js_trim s @ rev (takeWhile js_ws (rev ?d))"
    using s by (simp add: js_trim_def)
  moreover have "\<forall>c \<in> set (takeWhile js_ws s). js_ws c"
    by (auto dest: set_takeWhileD)
  moreover have "\<forall>c \<in> set (rev (takeWhile js_ws (rev ?d))). js_ws c"
    by (auto dest: set_takeWhileD)
  ultimately show ?thesis by blast
qed

lemma is_json_json_rt: "v \<noteq> JUndef \<Longrightarrow> is_json (json_rt v)"
  by (induction v rule: json_rt.induct) auto

lemma json_rt_is_json: "is_json v \<Longrightarrow> json_rt v = v"
proof (induction v rule: json_rt.induct)
  case (1 xs)
  have "\<forall>v \<in> set xs. (if v = JUndef then JNull else json_rt v) = v"
  proof
    fix v assume v: "v \<in> set xs"
    with "1.prems" have "is_json v" by simp
    then have "v \<noteq> JUndef" by auto
    with "1.IH" v \<open>is_json v\<close> show "(if v = JUndef then JNull else json_rt v) = v" by simp
  qed
  then show ?case by (simp add: map_idI)
next
  case (2 kvs)
  have "\<forall>kv \<in> set kvs. snd kv \<noteq> JUndef \<and> json_rt (snd kv) = snd kv"
  proof
    fix kv assume kv: "kv \<in> set kvs"
    obtain k v where kv_eq: "kv = (k, v)" by (cases kv)
    with "2.prems" kv have "is_json v" by fastforce
    then have "v \<noteq> JUndef" by auto
    moreover have "json_rt v = v"
      using "2.IH"[of "(k, v)" k v] kv kv_eq \<open>is_json v\<close> \<open>v \<noteq> JUndef\<close> by simp
    ultimately show "snd kv \<noteq> JUndef \<and> json_rt (snd kv) = snd kv" using kv_eq by simp
  qed
  then have "filter (\<lambda>(k, v). v \<noteq> JUndef) kvs = kvs"
    by (simp add: case_prod_beta)
  moreover have "map (\<lambda>(k, v). (k, json_rt v)) kvs = kvs"
    using \<open>\<forall>kv \<in> set kvs. _\<close> by (simp add: case_prod_beta map_idI)
  ultimately show ?case by simp
qed auto

lemma json_rt_idem [simp]: "json_rt (json_rt v) = json_rt v"
proof (cases "v = JUndef")
  case False
  then show ?thesis by (simp add: is_json_json_rt json_rt_is_json)
qed simp

end
