(* ===== verification/Storage.thy ===== *)
theory Storage
  imports JsValues
begin

text \<open>
  \<open>localStorage\<close> as the program uses it: a map from keys to stored text,
  always written as \<open>JSON.stringify\<close> of a value and always read back through
  \<open>JSON.parse (localStorage.getItem k)\<close>.  A slot therefore holds either the
  JSON value its text parses to or text that \<open>JSON.parse\<close> rejects
  (\<open>Garbage\<close>); a missing key reads as \<open>null\<close>, because
  \<open>JSON.parse (null)\<close> parses the text \<open>"null"\<close>.  The keys are
  \<open>shoppingList\<close> and \<open>userProfile\<close>.
\<close>

datatype stored = Garbage | Json jsval

type_synonym storage = "string \<rightharpoonup> stored"

text \<open>\<open>JSON.parse (localStorage.getItem k)\<close>.\<close>

definition parse_item :: "storage \<Rightarrow> string \<Rightarrow> js_error + jsval" where
  "parse_item st k =
     (case st k of
        None \<Rightarrow> Inr JNull
      | Some Garbage \<Rightarrow> Inl SyntaxError
      | Some (Json v) \<Rightarrow> Inr v)"

text \<open>
  \<open>localStorage.setItem (k, JSON.stringify v)\<close>.  \<open>JSON.stringify\<close> of
  undefined is undefined, which \<open>setItem\<close> stores as the text
  \<open>"undefined"\<close>, which does not parse.
\<close>

definition set_item :: "storage \<Rightarrow> string \<Rightarrow> jsval \<Rightarrow> storage" where
  "set_item st k v = st(k \<mapsto> (if v = JUndef then Garbage else Json (json_rt v)))"

text \<open>Storage as the browser can hold it: every parsable slot holds a JSON value.\<close>

definition storage_ok :: "storage \<Rightarrow> bool" where
  "storage_ok st \<longleftrightarrow> (\<forall>k v. st k = Some (Json v) \<longrightarrow> is_json v)"

lemma parse_item_set_item_same [simp]:
  "v \<noteq> JUndef \<Longrightarrow> parse_item (set_item st k v) k = Inr (json_rt v)"
  by (simp add: parse_item_def set_item_def)

lemma parse_item_set_item_other [simp]:
  "k' \<noteq> k \<Longrightarrow> parse_item (set_item st k v) k' = parse_item st k'"
  by (simp add: parse_item_def set_item_def)

lemma parse_item_empty [simp]: "parse_item Map.empty k = Inr JNull"
  by (simp add: parse_item_def)

lemma set_item_set_item [simp]: "set_item (set_item st k v) k w = set_item st k w"
  by (simp add: set_item_def)

lemma storage_ok_set_item [intro]: "storage_ok st \<Longrightarrow> storage_ok (set_item st k v)"
  by (auto simp: storage_ok_def set_item_def is_json_json_rt)

lemma storage_ok_empty [simp]: "storage_ok Map.empty"
  by (simp add: storage_ok_def)

lemma parse_item_is_json:
  "storage_ok st \<Longrightarrow> parse_item st k = Inr v \<Longrightarrow> is_json v"
  by (auto simp: storage_ok_def parse_item_def split: option.splits stored.splits)

end
