(* ===== verification/Page.thy ===== *)
theory Page
  imports Storage
begin

text \<open>
  The state of one page session of \<open>src/scripts.js\<close>: the module-level
  variables of lines 18--22 (\<open>totalItems\<close>, \<open>gotItems\<close>, \<open>items\<close>,
  \<open>showingDemo\<close>, \<open>profile\<close>), the parts of the DOM the script reads and
  writes, and \<open>localStorage\<close>.  Which elements the page has is its
  \<open>markup\<close>: the shopping list page has the item form and input, the list,
  the three stat fields and the filter bar (\<open>has_list\<close>); a page may carry a
  profile card (\<open>has_card\<close>) and the registration page has the register form
  (\<open>has_register\<close>).  The script runs unchanged on every page; a handler
  that touches an element the page lacks throws a TypeError.
\<close>

record markup =
  has_list :: bool
  has_card :: bool
  has_register :: bool

text \<open>\<open>li.style.display\<close>: never set, \<open>"flex"\<close> or \<open>"none"\<close>.\<close>

datatype display = DUnset | DFlex | DNone

text \<open>
  A list entry \<open><li class="item [demo] [got]"><span class="item-text">
  text</span><button class="remove-btn"></button></li>\<close>: its two classes,
  the span's text, whether the button is disabled, and its display style.
\<close>

record li =
  li_demo :: bool
  li_got :: bool
  li_text :: string
  li_disabled :: bool
  li_display :: display

text \<open>An element \<open>{text, got}\<close> of the \<open>items\<close> array, holding whatever values it was created with.\<close>

record item =
  item_text :: jsval
  item_got :: jsval

text \<open>
  \<open>shown\<close> is the content of the three stat fields (total, got, remaining),
  \<open>None\<close> while they still show the page's own markup; \<open>card_name\<close> and
  \<open>card_email\<close> likewise for the profile card.  \<open>alerts\<close> records
  \<open>alert\<close> calls, \<open>location\<close> a navigation, \<open>errors\<close> the uncaught
  exceptions of handlers.
\<close>

record page =
  markup :: markup
  lis :: "li list"
  totalItems :: int
  gotItems :: int
  items :: "item list"
  showingDemo :: bool
  profile :: jsval
  input_value :: string
  input_focused :: bool
  shown :: "(int \<times> int \<times> int) option"
  card_name :: "string option"
  card_email :: "string option"
  store :: storage
  alerts :: "string list"
  location :: "string option"
  errors :: "js_error list"

type_synonym outcome = "(js_error, page) exc"

text \<open>The page before \<open>DOMContentLoaded\<close>: the initialisers of lines 18--22, an empty list.\<close>

definition init_page :: "markup \<Rightarrow> storage \<Rightarrow> page" where
  "init_page m st =
     \<lparr>markup = m, lis = [], totalItems = 0, gotItems = 0, items = [], showingDemo = False,
      profile = JNull, input_value = [], input_focused = False, shown = None,
      card_name = None, card_email = None, store = st, alerts = [], location = None,
      errors = []\<rparr>"

definition real_lis :: "page \<Rightarrow> li list" where
  "real_lis p = filter (\<lambda>l. \<not> li_demo l) (lis p)"

definition item_json :: "item \<Rightarrow> jsval" where
  "item_json it = JObj [(''text'', item_text it), (''got'', item_got it)]"

text \<open>
  The part of the page the list controller owns.  The profile handlers leave it
  alone, and every invariant of the list is a property of this part.
\<close>

definition list_part :: "page \<Rightarrow> li list \<times> int \<times> int \<times> item list \<times> bool \<times> (int \<times> int \<times> int) option \<times> markup" where
  "list_part p = (lis p, totalItems p, gotItems p, items p, showingDemo p, shown p, markup p)"

lemma real_lis_init [simp]: "real_lis (init_page m st) = []"
  by (simp add: real_lis_def init_page_def)

end
