(* ===== verification/ListController.thy ===== *)
theory ListController
  imports Page
begin

text \<open>
  The shopping list of \<open>src/scripts.js\<close>: one definition per function or
  event handler, in the order of the file.  Each returns an \<open>outcome\<close>: the
  exception it throws, if any, and the page it leaves, with every effect made
  before the exception kept.  Rendering and state are one in the source (the
  list is the DOM), so the model keeps both: the \<open>li\<close> elements and the
  \<open>items\<close> array that is persisted.
\<close>

subsection \<open>Rendering helpers\<close>

definition demo_li :: "string \<Rightarrow> bool \<Rightarrow> li" where
  "demo_li t g =
     \<lparr>li_demo = True, li_got = g, li_text = t @ '' (example)'', li_disabled = True,
      li_display = DUnset\<rparr>"

definition real_li :: "string \<Rightarrow> bool \<Rightarrow> li" where
  "real_li t g = \<lparr>li_demo = False, li_got = g, li_text = t, li_disabled = False, li_display = DUnset\<rparr>"

text \<open>\<open>showDemoItems\<close> (lines 45--66): two disabled entries, appended to the list.\<close>

definition showDemoItems :: "page \<Rightarrow> outcome" where
  "showDemoItems p =
     (if has_list (markup p)
      then (None, p\<lparr>lis := lis p @ [demo_li ''Milk'' False, demo_li ''Eggs'' True]\<rparr>)
      else (Some TypeError, p))"

text \<open>\<open>updateStats\<close> (lines 160--164).\<close>

definition updateStats :: "page \<Rightarrow> outcome" where
  "updateStats p =
     (if has_list (markup p)
      then (None, p\<lparr>shown := Some (totalItems p, gotItems p, totalItems p - gotItems p)\<rparr>)
      else (Some TypeError, p))"

text \<open>\<open>saveItems\<close> (lines 167--169).\<close>

definition saveItems :: "page \<Rightarrow> outcome" where
  "saveItems p =
     (None, p\<lparr>store := set_item (store p) ''shoppingList'' (JArr (map item_json (items p)))\<rparr>)"

text \<open>
  \<open>createItem (text, got = false)\<close> (lines 87--105).  The default applies when
  the argument is undefined; the class and the counter follow the truthiness of
  \<open>got\<close>; the array keeps the values themselves.
\<close>

definition createItem :: "jsval \<Rightarrow> jsval \<Rightarrow> page \<Rightarrow> outcome" where
  "createItem text got0 p =
     (let got = (if got0 = JUndef then JBool False else got0) in
      if \<not> has_list (markup p) then (Some TypeError, p)
      else exc_bind
        (updateStats (p\<lparr>lis := lis p @ [real_li (dom_text text) (truthy got)],
                        totalItems := totalItems p + 1,
                        gotItems := (if truthy got then gotItems p + 1 else gotItems p)\<rparr>))
        (\<lambda>p'. (None, p'\<lparr>items := items p' @ [\<lparr>item_text = text, item_got = got\<rparr>]\<rparr>)))"

subsection \<open>Loading the list (\<open>DOMContentLoaded\<close>, lines 27--34)\<close>

text \<open>\<open>saved.forEach ((obj) => createItem (obj.text, obj.got))\<close>.\<close>

fun loadEntries :: "jsval list \<Rightarrow> page \<Rightarrow> outcome" where
  "loadEntries [] p = (None, p)"
| "loadEntries (obj # objs) p =
     (case get_prop obj ''text'' of
        Inl e \<Rightarrow> (Some e, p)
      | Inr t \<Rightarrow>
          (case get_prop obj ''got'' of
             Inl e \<Rightarrow> (Some e, p)
           | Inr g \<Rightarrow> exc_bind (createItem t g p) (loadEntries objs)))"

text \<open>
  \<open>const saved = JSON.parse (localStorage.getItem ("shoppingList")) || []\<close>,
  then demo mode when \<open>saved.length === 0\<close>, else \<open>forEach\<close>, which only
  arrays have.
\<close>

definition initItems :: "page \<Rightarrow> outcome" where
  "initItems p =
     (case parse_item (store p) ''shoppingList'' of
        Inl e \<Rightarrow> (Some e, p)
      | Inr v \<Rightarrow>
          (let saved = (if truthy v then v else JArr []) in
           case get_prop saved ''length'' of
             Inl e \<Rightarrow> (Some e, p)
           | Inr len \<Rightarrow>
               (if len = JNum 0
                then exc_bind (showDemoItems p) (\<lambda>p'. (None, p'\<lparr>showingDemo := True\<rparr>))
                else (case saved of
                        JArr objs \<Rightarrow> exc_bind (loadEntries objs p) updateStats
                      | _ \<Rightarrow> (Some TypeError, p)))))"

subsection \<open>Adding an item (submit handler, lines 69--84)\<close>

definition submitItem :: "page \<Rightarrow> outcome" where
  "submitItem p =
     (let text = js_trim (input_value p) in
      if text = [] then (None, p)
      else
        (let p1 = (if showingDemo p then p\<lparr>lis := [], showingDemo := False\<rparr> else p) in
         exc_bind (createItem (JStr text) (JBool False) p1)
           (\<lambda>p2. saveItems (p2\<lparr>input_value := [], input_focused := True\<rparr>))))"

subsection \<open>Clicks in the list (lines 108--143)\<close>

text \<open>
  The element clicked: the remove button, the text span or the \<open>li\<close> of the
  entry at a position, or the list element itself.
\<close>

datatype target = RemoveBtn nat | ItemText nat | ItemLi nat | ListArea

definition removeAt :: "nat \<Rightarrow> page \<Rightarrow> outcome" where
  "removeAt i p =
     (let l = lis p ! i; text = li_text l in
      exc_bind
        (updateStats (p\<lparr>gotItems := (if li_got l then gotItems p - 1 else gotItems p),
                        totalItems := totalItems p - 1,
                        items := filter (\<lambda>it. item_text it \<noteq> JStr text) (items p),
                        lis := remove_nth i (lis p)\<rparr>))
        saveItems)"

text \<open>
  \<open>items.find\<close> returns the first element with the text, and the assignment
  to \<open>obj.got\<close> mutates that element of the array in place.
\<close>

definition toggleAt :: "nat \<Rightarrow> page \<Rightarrow> outcome" where
  "toggleAt i p =
     (let l = lis p ! i; now_got = \<not> li_got l; text = li_text l in
      exc_bind
        (updateStats (p\<lparr>lis := (lis p)[i := l\<lparr>li_got := now_got\<rparr>],
                        gotItems := (if now_got then gotItems p + 1 else gotItems p - 1),
                        items := update_first (\<lambda>it. item_text it = JStr text)
                                   (\<lambda>it. it\<lparr>item_got := JBool now_got\<rparr>) (items p)\<rparr>))
        saveItems)"

definition clickList :: "target \<Rightarrow> page \<Rightarrow> outcome" where
  "clickList t p =
     (case t of
        ListArea \<Rightarrow> (None, p)
      | RemoveBtn i \<Rightarrow> (if li_demo (lis p ! i) then (None, p) else removeAt i p)
      | ItemText i \<Rightarrow> (if li_demo (lis p ! i) then (None, p) else toggleAt i p)
      | ItemLi i \<Rightarrow> (if li_demo (lis p ! i) then (None, p) else toggleAt i p))"

text \<open>A click has an element to land on: the position names an existing entry.\<close>

fun target_ok :: "target \<Rightarrow> page \<Rightarrow> bool" where
  "target_ok ListArea p = True"
| "target_ok (RemoveBtn i) p = (i < length (lis p))"
| "target_ok (ItemText i) p = (i < length (lis p))"
| "target_ok (ItemLi i) p = (i < length (lis p))"

subsection \<open>Filters (lines 146--157) and the Escape key (lines 172--177)\<close>

definition filterDisplay :: "string option \<Rightarrow> li \<Rightarrow> li" where
  "filterDisplay f l =
     (if li_demo l then l
      else if f = Some ''all'' then l\<lparr>li_display := DFlex\<rparr>
      else if f = Some ''got'' then l\<lparr>li_display := (if li_got l then DFlex else DNone)\<rparr>
      else if f = Some ''need'' then l\<lparr>li_display := (if li_got l then DNone else DFlex)\<rparr>
      else l)"

text \<open>\<open>is_button\<close>: the target's tag is BUTTON; \<open>f\<close>: its \<open>data-filter\<close>.\<close>

definition clickFilter :: "bool \<Rightarrow> string option \<Rightarrow> page \<Rightarrow> outcome" where
  "clickFilter is_button f p =
     (if \<not> is_button then (None, p) else (None, p\<lparr>lis := map (filterDisplay f) (lis p)\<rparr>))"

definition keyDown :: "string \<Rightarrow> page \<Rightarrow> outcome" where
  "keyDown k p =
     (if k = ''Escape''
      then (if has_list (markup p)
            then (None, p\<lparr>input_value := [], input_focused := False\<rparr>)
            else (Some TypeError, p))
      else (None, p))"

subsection \<open>Invariants\<close>

text \<open>
  The counters agree with the entries shown (\<open>counts_ok\<close>); the stat fields
  show the counters, with \<open>remaining = total - got\<close>, or still show the
  markup (\<open>shown_ok\<close>).  The DOM has its list entries only on a page with the
  list, exactly the two demo entries in demo mode, and no demo entry otherwise
  (\<open>dom_inv\<close>).
\<close>

definition counts_ok :: "page \<Rightarrow> bool" where
  "counts_ok p \<longleftrightarrow>
     totalItems p = int (length (real_lis p)) \<and>
     gotItems p = int (length (filter li_got (real_lis p)))"

definition shown_ok :: "page \<Rightarrow> bool" where
  "shown_ok p \<longleftrightarrow> shown p = None \<or> shown p = Some (totalItems p, gotItems p, totalItems p - gotItems p)"

definition stats_inv :: "page \<Rightarrow> bool" where
  "stats_inv p \<longleftrightarrow> counts_ok p \<and> shown_ok p"

definition demo_lis :: "li list" where
  "demo_lis = [demo_li ''Milk'' False, demo_li ''Eggs'' True]"

definition dom_inv :: "page \<Rightarrow> bool" where
  "dom_inv p \<longleftrightarrow>
     (\<not> has_list (markup p) \<longrightarrow> lis p = [] \<and> \<not> showingDemo p) \<and>
     (if showingDemo p then lis p = demo_lis \<and> items p = [] else (\<forall>l \<in> set (lis p). \<not> li_demo l))"

subsection \<open>The stats invariant, operation by operation\<close>

lemma stats_inv_cong:
  "length (real_lis q) = length (real_lis p) \<Longrightarrow>
   length (filter li_got (real_lis q)) = length (filter li_got (real_lis p)) \<Longrightarrow> totalItems q = totalItems p \<Longrightarrow> gotItems q = gotItems p \<Longrightarrow>
   shown q = shown p \<Longrightarrow> stats_inv q = stats_inv p"
  by (simp add: stats_inv_def counts_ok_def shown_ok_def)

lemma stats_inv_input_update [simp]:
  "stats_inv (p\<lparr>input_value := a, input_focused := b\<rparr>) = stats_inv p"
  by (simp add: stats_inv_def counts_ok_def shown_ok_def real_lis_def)

lemma stats_inv_updateStats:
  "counts_ok p \<Longrightarrow> has_list (markup p) \<or> shown_ok p \<Longrightarrow> stats_inv (snd (updateStats p))"
  by (auto simp: updateStats_def stats_inv_def counts_ok_def shown_ok_def real_lis_def)

lemma stats_inv_saveItems: "stats_inv (snd (saveItems p)) = stats_inv p"
  by (simp add: saveItems_def stats_inv_def counts_ok_def shown_ok_def real_lis_def)

lemma stats_inv_createItem: "stats_inv p \<Longrightarrow> stats_inv (snd (createItem t g p))"
  by (auto simp: createItem_def updateStats_def stats_inv_def counts_ok_def shown_ok_def
      real_lis_def real_li_def Let_def)

lemma loadEntries_preserve:
  assumes "P p" and "\<And>q t g. P q \<Longrightarrow> P (snd (createItem t g q))"
  shows "P (snd (loadEntries objs p))"
  using assms(1)
proof (induction objs arbitrary: p)
  case Nil
  then show ?case by simp
next
  case (Cons obj objs)
  have "P (snd (exc_bind (createItem t g p) (loadEntries objs)))" for t g
    by (rule exc_bind_preserve[where P = P, OF assms(2)[OF Cons.prems]]) (rule Cons.IH)
  then show ?case using Cons.prems by (simp split: sum.splits)
qed

lemma stats_inv_loadEntries: "stats_inv p \<Longrightarrow> stats_inv (snd (loadEntries objs p))"
  by (erule loadEntries_preserve) (rule stats_inv_createItem)

lemma real_lis_append_demo [simp]:
  "real_lis (p\<lparr>lis := lis p @ [demo_li a b, demo_li c d]\<rparr>) = real_lis p"
  by (simp add: real_lis_def demo_li_def)

lemma stats_inv_showDemoItems: "stats_inv p \<Longrightarrow> stats_inv (snd (showDemoItems p))"
  by (auto simp add: showDemoItems_def stats_inv_def counts_ok_def shown_ok_def)

lemma real_lis_demo_mode: "dom_inv p \<Longrightarrow> showingDemo p \<Longrightarrow> real_lis p = []"
  by (simp add: dom_inv_def demo_lis_def demo_li_def real_lis_def)

lemma stats_inv_submitItem:
  assumes "stats_inv p" and "dom_inv p"
  shows "stats_inv (snd (submitItem p))"
proof -
  let ?p1 = "if showingDemo p then p\<lparr>lis := [], showingDemo := False\<rparr> else p"
  have "real_lis ?p1 = real_lis p"
    using real_lis_demo_mode[OF assms(2)] by (simp add: real_lis_def)
  then have "stats_inv ?p1"
    using assms(1) by (subst stats_inv_cong[where p = p]) simp_all
  show ?thesis
  proof (cases "js_trim (input_value p) = []")
    case True
    then show ?thesis using assms(1) by (simp add: submitItem_def)
  next
    case False
    have "stats_inv (snd (exc_bind (createItem (JStr (js_trim (input_value p))) (JBool False) ?p1)
        (\<lambda>p2. saveItems (p2\<lparr>input_value := [], input_focused := True\<rparr>))))"
      using \<open>stats_inv ?p1\<close>
      by (rule exc_bind_preserve[where P = stats_inv, OF stats_inv_createItem])
        (simp add: stats_inv_saveItems)
    with False show ?thesis by (simp add: submitItem_def Let_def)
  qed
qed

lemma stats_inv_removeAt:
  assumes "stats_inv p" and "i < length (lis p)" and "\<not> li_demo (lis p ! i)"
    and "has_list (markup p)"
  shows "stats_inv (snd (removeAt i p))"
proof -
  let ?l = "lis p ! i"
  let ?xs = "remove_nth i (lis p)"
  have a: "length (filter (\<lambda>l. \<not> li_demo l) (lis p)) = length (filter (\<lambda>l. \<not> li_demo l) ?xs) + 1"
    using length_filter_remove_nth[OF assms(2)] assms(3) by simp
  have b: "length (filter (\<lambda>l. \<not> li_demo l \<and> li_got l) (lis p)) =
      length (filter (\<lambda>l. \<not> li_demo l \<and> li_got l) ?xs) + (if li_got ?l then 1 else 0)"
    using length_filter_remove_nth[OF assms(2)] assms(3) by simp
  let ?q = "p\<lparr>gotItems := (if li_got ?l then gotItems p - 1 else gotItems p),
              totalItems := totalItems p - 1,
              items := filter (\<lambda>it. item_text it \<noteq> JStr (li_text ?l)) (items p),
              lis := ?xs\<rparr>"
  have c: "totalItems p = int (length (filter (\<lambda>l. \<not> li_demo l) (lis p)))"
    and d: "gotItems p = int (length (filter (\<lambda>l. \<not> li_demo l \<and> li_got l) (lis p)))"
    using assms(1) by (simp_all add: stats_inv_def counts_ok_def real_lis_def)
  have "counts_ok ?q"
    unfolding counts_ok_def real_lis_def using a b c d by (simp add: filter_filter)
  then have "stats_inv (snd (updateStats ?q))"
    using assms(4) by (intro stats_inv_updateStats) simp_all
  then show ?thesis
    unfolding removeAt_def Let_def by (simp add: exc_bind_preserve[where P = stats_inv] stats_inv_saveItems)
qed

lemma stats_inv_toggleAt:
  assumes "stats_inv p" and "i < length (lis p)" and "\<not> li_demo (lis p ! i)"
    and "has_list (markup p)"
  shows "stats_inv (snd (toggleAt i p))"
proof -
  let ?l = "lis p ! i"
  let ?xs = "(lis p)[i := ?l\<lparr>li_got := \<not> li_got ?l\<rparr>]"
  have a: "length (filter (\<lambda>l. \<not> li_demo l) ?xs) = length (filter (\<lambda>l. \<not> li_demo l) (lis p))"
    using length_filter_list_update[OF assms(2), of "\<lambda>l. \<not> li_demo l" "?l\<lparr>li_got := \<not> li_got ?l\<rparr>"] assms(3)
    by simp
  have b: "length (filter (\<lambda>l. \<not> li_demo l \<and> li_got l) ?xs) + (if li_got ?l then 1 else 0) =
      length (filter (\<lambda>l. \<not> li_demo l \<and> li_got l) (lis p)) + (if li_got ?l then 0 else 1)"
    using length_filter_list_update[OF assms(2), of "\<lambda>l. \<not> li_demo l \<and> li_got l" "?l\<lparr>li_got := \<not> li_got ?l\<rparr>"] assms(3)
    by simp
  let ?q = "p\<lparr>lis := ?xs,
              gotItems := (if \<not> li_got ?l then gotItems p + 1 else gotItems p - 1),
              items := update_first (\<lambda>it. item_text it = JStr (li_text ?l))
                         (\<lambda>it. it\<lparr>item_got := JBool (\<not> li_got ?l)\<rparr>) (items p)\<rparr>"
  have c: "totalItems p = int (length (filter (\<lambda>l. \<not> li_demo l) (lis p)))"
    and d: "gotItems p = int (length (filter (\<lambda>l. \<not> li_demo l \<and> li_got l) (lis p)))"
    using assms(1) by (simp_all add: stats_inv_def counts_ok_def real_lis_def)
  have "counts_ok ?q"
    unfolding counts_ok_def real_lis_def using a b c d by (cases "li_got ?l") (simp_all add: filter_filter)
  then have "stats_inv (snd (updateStats ?q))"
    using assms(4) by (intro stats_inv_updateStats) simp_all
  then show ?thesis
    unfolding toggleAt_def Let_def by (simp add: exc_bind_preserve[where P = stats_inv] stats_inv_saveItems)
qed

lemma filterDisplay_flags [simp]:
  "li_demo (filterDisplay f l) = li_demo l" "li_got (filterDisplay f l) = li_got l"
  "li_text (filterDisplay f l) = li_text l"
  by (simp_all add: filterDisplay_def)

lemma real_lis_clickFilter:
  "real_lis (snd (clickFilter b f p)) =
     (if b then map (filterDisplay f) (real_lis p) else real_lis p)"
  by (simp add: clickFilter_def real_lis_def filter_map comp_def)

lemma length_filter_got_filterDisplay:
  "length (filter li_got (map (filterDisplay f) xs)) = length (filter li_got xs)"
  by (induction xs) auto

lemma stats_inv_clickFilter: "stats_inv p \<Longrightarrow> stats_inv (snd (clickFilter b f p))"
  by (subst stats_inv_cong[where p = p])
    (simp_all add: real_lis_def filter_map comp_def length_filter_got_filterDisplay clickFilter_def)

lemma stats_inv_keyDown: "stats_inv p \<Longrightarrow> stats_inv (snd (keyDown k p))"
  by (simp add: keyDown_def)

lemma has_list_of_entry: "dom_inv p \<Longrightarrow> i < length (lis p) \<Longrightarrow> has_list (markup p)"
  by (auto simp: dom_inv_def)

lemma stats_inv_clickList:
  assumes "stats_inv p" and "dom_inv p" and "target_ok t p"
  shows "stats_inv (snd (clickList t p))"
proof (cases t)
  case (RemoveBtn i)
  then show ?thesis using assms has_list_of_entry[OF assms(2)]
    by (simp add: clickList_def stats_inv_removeAt)
next
  case (ItemText i)
  then show ?thesis using assms has_list_of_entry[OF assms(2)]
    by (simp add: clickList_def stats_inv_toggleAt)
next
  case (ItemLi i)
  then show ?thesis using assms has_list_of_entry[OF assms(2)]
    by (simp add: clickList_def stats_inv_toggleAt)
qed (simp add: clickList_def assms(1))

lemma stats_inv_updateStats_inv: "stats_inv p \<Longrightarrow> stats_inv (snd (updateStats p))"
  unfolding stats_inv_def by (rule stats_inv_updateStats[unfolded stats_inv_def]) simp_all

lemma stats_inv_showingDemo_update [simp]: "stats_inv (p\<lparr>showingDemo := b\<rparr>) = stats_inv p"
  by (simp add: stats_inv_def counts_ok_def shown_ok_def real_lis_def)

lemma stats_inv_initItems: "stats_inv p \<Longrightarrow> stats_inv (snd (initItems p))"
proof -
  assume inv: "stats_inv p"
  have demo: "stats_inv (snd (exc_bind (showDemoItems p) (\<lambda>p'. (None, p'\<lparr>showingDemo := True\<rparr>))))"
    by (rule exc_bind_preserve[where P = stats_inv, OF stats_inv_showDemoItems[OF inv]]) simp
  have load: "stats_inv (snd (exc_bind (loadEntries objs p) updateStats))" for objs
    by (rule exc_bind_preserve[where P = stats_inv, OF stats_inv_loadEntries[OF inv]])
      (rule stats_inv_updateStats_inv)
  show ?thesis
    unfolding initItems_def Let_def using inv demo load
    by (auto split: sum.splits jsval.splits)
qed

subsection \<open>The DOM invariant, operation by operation\<close>

lemma dom_inv_frame [simp]:
  "dom_inv (p\<lparr>shown := x\<rparr>) = dom_inv p" "dom_inv (p\<lparr>store := st\<rparr>) = dom_inv p"
  "dom_inv (p\<lparr>input_value := a, input_focused := b\<rparr>) = dom_inv p"
  by (simp_all add: dom_inv_def)

lemma dom_inv_updateStats: "dom_inv (snd (updateStats p)) = dom_inv p"
  by (simp add: updateStats_def dom_inv_def)

lemma dom_inv_saveItems: "dom_inv (snd (saveItems p)) = dom_inv p"
  by (simp add: saveItems_def dom_inv_def)

lemma showingDemo_createItem [simp]: "showingDemo (snd (createItem t g p)) = showingDemo p"
  by (simp add: createItem_def updateStats_def Let_def)

lemma dom_inv_createItem:
  "dom_inv p \<Longrightarrow> \<not> showingDemo p \<Longrightarrow> dom_inv (snd (createItem t g p))"
  by (simp add: createItem_def updateStats_def dom_inv_def real_li_def Let_def)

lemma dom_inv_loadEntries:
  "dom_inv p \<and> \<not> showingDemo p \<Longrightarrow> dom_inv (snd (loadEntries objs p)) \<and> \<not> showingDemo (snd (loadEntries objs p))"
  by (rule loadEntries_preserve[where P = "\<lambda>q. dom_inv q \<and> \<not> showingDemo q"])
    (simp_all add: dom_inv_createItem)

lemma demo_lis_demo: "l \<in> set demo_lis \<Longrightarrow> li_demo l"
  by (auto simp: demo_lis_def demo_li_def)

lemma not_demo_of_real_entry:
  "dom_inv p \<Longrightarrow> i < length (lis p) \<Longrightarrow> \<not> li_demo (lis p ! i) \<Longrightarrow> \<not> showingDemo p"
  by (metis dom_inv_def demo_lis_demo nth_mem)

lemma dom_inv_initItems:
  assumes "lis p = []" and "\<not> showingDemo p" and "items p = []"
  shows "dom_inv (snd (initItems p))"
proof -
  have d0: "dom_inv p \<and> \<not> showingDemo p" using assms(1,2) by (simp add: dom_inv_def)
  have demo: "dom_inv (snd (exc_bind (showDemoItems p) (\<lambda>p'. (None, p'\<lparr>showingDemo := True\<rparr>))))"
    using assms by (simp add: showDemoItems_def dom_inv_def demo_lis_def)
  have "dom_inv (snd (exc_bind (loadEntries objs p) updateStats)) \<and>
        \<not> showingDemo (snd (exc_bind (loadEntries objs p) updateStats))" for objs
    by (rule exc_bind_preserve[where P = "\<lambda>q. dom_inv q \<and> \<not> showingDemo q", OF dom_inv_loadEntries[OF d0]])
      (simp add: dom_inv_updateStats updateStats_def)
  then have load: "dom_inv (snd (exc_bind (loadEntries objs p) updateStats))" for objs
    by blast
  show ?thesis
    unfolding initItems_def Let_def using d0 demo load
    by (auto split: sum.splits jsval.splits)
qed

lemma dom_inv_submitItem: "dom_inv p \<Longrightarrow> dom_inv (snd (submitItem p))"
proof -
  assume inv: "dom_inv p"
  let ?p1 = "if showingDemo p then p\<lparr>lis := [], showingDemo := False\<rparr> else p"
  have p1: "dom_inv ?p1 \<and> \<not> showingDemo ?p1" using inv by (simp add: dom_inv_def)
  have "dom_inv (snd (exc_bind (createItem (JStr t) (JBool False) ?p1)
      (\<lambda>p2. saveItems (p2\<lparr>input_value := [], input_focused := True\<rparr>))))" for t
    by (rule exc_bind_preserve[where P = dom_inv, OF dom_inv_createItem[OF p1[THEN conjunct1] p1[THEN conjunct2]]])
      (simp add: dom_inv_saveItems)
  then show ?thesis using inv
    unfolding submitItem_def Let_def by (cases "js_trim (input_value p) = []") simp_all
qed

lemma dom_inv_removeAt:
  assumes "dom_inv p" and "i < length (lis p)" and "\<not> li_demo (lis p ! i)"
  shows "dom_inv (snd (removeAt i p))"
proof -
  have nd: "\<not> showingDemo p" by (rule not_demo_of_real_entry[OF assms])
  have hl: "has_list (markup p)" using assms(1,2) by (auto simp: dom_inv_def)
  have "\<forall>l \<in> set (remove_nth i (lis p)). \<not> li_demo l"
    using assms(1) nd by (auto simp: dom_inv_def remove_nth_def dest: in_set_takeD in_set_dropD)
  then show ?thesis
    using nd hl unfolding removeAt_def Let_def
    by (intro exc_bind_preserve[where P = dom_inv, OF dom_inv_updateStats[THEN iffD2]])
      (simp add: dom_inv_def, simp add: dom_inv_saveItems)
qed

lemma dom_inv_toggleAt:
  assumes "dom_inv p" and "i < length (lis p)" and "\<not> li_demo (lis p ! i)"
  shows "dom_inv (snd (toggleAt i p))"
proof -
  have nd: "\<not> showingDemo p" by (rule not_demo_of_real_entry[OF assms])
  have hl: "has_list (markup p)" using assms(1,2) by (auto simp: dom_inv_def)
  have "\<forall>l \<in> set ((lis p)[i := (lis p ! i)\<lparr>li_got := b\<rparr>]). \<not> li_demo l" for b
    using assms(1,3) nd by (auto simp: dom_inv_def dest: set_update_subset_insert[THEN subsetD])
  then show ?thesis
    using nd hl unfolding toggleAt_def Let_def
    by (intro exc_bind_preserve[where P = dom_inv, OF dom_inv_updateStats[THEN iffD2]])
      (simp add: dom_inv_def, simp add: dom_inv_saveItems)
qed

lemma dom_inv_clickList:
  assumes "dom_inv p" and "target_ok t p"
  shows "dom_inv (snd (clickList t p))"
  using assms by (cases t) (simp_all add: clickList_def dom_inv_removeAt dom_inv_toggleAt)

lemma filterDisplay_demo [simp]: "li_demo l \<Longrightarrow> filterDisplay f l = l"
  by (simp add: filterDisplay_def)

lemma dom_inv_clickFilter: "dom_inv p \<Longrightarrow> dom_inv (snd (clickFilter b f p))"
proof -
  assume inv: "dom_inv p"
  have "map (filterDisplay f) demo_lis = demo_lis"
    by (simp add: demo_lis_def demo_li_def)
  with inv show ?thesis by (auto simp: clickFilter_def dom_inv_def)
qed

lemma dom_inv_keyDown: "dom_inv p \<Longrightarrow> dom_inv (snd (keyDown k p))"
  by (simp add: keyDown_def)

subsection \<open>Loading into demo mode\<close>

lemma initItems_demo:
  assumes "has_list (markup p)" and "parse_item (store p) ''shoppingList'' = Inr v"
    and "\<not> truthy v \<or> v = JArr []"
  shows "initItems p = (None, p\<lparr>lis := lis p @ demo_lis, showingDemo := True\<rparr>)"
  using assms by (auto simp: initItems_def showDemoItems_def demo_lis_def)

subsection \<open>Loading on a page without the list\<close>

lemma loadEntries_no_list:
  "\<not> has_list (markup p) \<Longrightarrow> objs \<noteq> [] \<Longrightarrow> fst (loadEntries objs p) \<noteq> None \<and> snd (loadEntries objs p) = p"
  by (cases objs) (auto simp: createItem_def Let_def split: sum.splits)

lemma initItems_no_list:
  assumes "\<not> has_list (markup p)"
  shows "fst (initItems p) \<noteq> None \<and> snd (initItems p) = p"
proof (cases "parse_item (store p) ''shoppingList''")
  case (Inr v)
  have "objs \<noteq> [] \<Longrightarrow> fst (exc_bind (loadEntries objs p) updateStats) \<noteq> None \<and>
      snd (exc_bind (loadEntries objs p) updateStats) = p" for objs
    using loadEntries_no_list[OF assms, of objs] by (cases "loadEntries objs p") auto
  with Inr assms show ?thesis
    by (auto simp: initItems_def showDemoItems_def Let_def split: sum.splits jsval.splits)
qed (simp add: initItems_def)

subsection \<open>The invariants belong to the list's part of the page\<close>

lemma stats_inv_list_part: "list_part q = list_part p \<Longrightarrow> stats_inv q = stats_inv p"
  by (simp add: list_part_def stats_inv_def counts_ok_def shown_ok_def real_lis_def)

lemma dom_inv_list_part: "list_part q = list_part p \<Longrightarrow> dom_inv q = dom_inv p"
  by (simp add: list_part_def dom_inv_def)

end
