(* ===== verification/ListSpec.thy ===== *)
theory ListSpec
  imports JsValues
begin

text \<open>
  The abstract list of the design (spec.md, sections 3 and 4.1): an ordered
  sequence of entries \<open>(text, got)\<close> identified by their text, with the demo
  flag; adding appends an unchecked entry unless the trimmed text is empty and
  ends demo mode; toggling flips the first entry with the text; removing deletes
  the first entry with the text; the stats are derived.  Demo entries are not
  part of the abstract list: they count for nothing and are never persisted.
\<close>

record spec_state =
  sitems :: "(string \<times> bool) list"
  sdemo :: bool

datatype spec_op = SAdd string | SToggle string | SRemove string | SSkip

fun del_first :: "'a \<Rightarrow> ('a \<times> 'b) list \<Rightarrow> ('a \<times> 'b) list" where
  "del_first k [] = []"
| "del_first k ((x, v) # xs) = (if x = k then xs else (x, v) # del_first k xs)"

definition flip_first :: "'a \<Rightarrow> ('a \<times> bool) list \<Rightarrow> ('a \<times> bool) list" where
  "flip_first k xs = update_first (\<lambda>(x, g). x = k) (\<lambda>(x, g). (x, \<not> g)) xs"

definition spec_add :: "string \<Rightarrow> spec_state \<Rightarrow> spec_state" where
  "spec_add t s =
     (let t' = js_trim t in
      if t' = [] then s else \<lparr>sitems = sitems s @ [(t', False)], sdemo = False\<rparr>)"

fun spec_step :: "spec_state \<Rightarrow> spec_op \<Rightarrow> spec_state" where
  "spec_step s (SAdd t) = spec_add t s"
| "spec_step s (SToggle t) = s\<lparr>sitems := flip_first t (sitems s)\<rparr>"
| "spec_step s (SRemove t) = s\<lparr>sitems := del_first t (sitems s)\<rparr>"
| "spec_step s SSkip = s"

text \<open>Entries are identified by their text: an addition is fresh when no entry has its trimmed text.\<close>

fun spec_fresh :: "spec_state \<Rightarrow> spec_op \<Rightarrow> bool" where
  "spec_fresh s (SAdd t) = (js_trim t \<notin> fst ` set (sitems s))"
| "spec_fresh s _ = True"

lemma del_first_map:
  "map fst (del_first k xs) = remove1 k (map fst xs)"
  by (induction k xs rule: del_first.induct) auto

lemma flip_first_Cons [simp]:
  "flip_first k ((x, g) # xs) = (if x = k then (x, \<not> g) # xs else (x, g) # flip_first k xs)"
  by (simp add: flip_first_def)

lemma flip_first_Nil [simp]: "flip_first k [] = []"
  by (simp add: flip_first_def)

lemma map_fst_flip_first [simp]: "map fst (flip_first k xs) = map fst xs"
  by (induction xs) auto

end
