(* ===== verification/ListRefinement.thy ===== *)
theory ListRefinement
  imports ListController ListSpec
begin

text \<open>
  How the list of \<open>src/scripts.js\<close> implements the abstract list of
  \<open>ListSpec\<close>.  Two views of a page: the real entries on screen
  (\<open>abs_page\<close>) and the \<open>items\<close> array that is persisted
  (\<open>synced\<close> says it mirrors the screen).  When the texts on screen are
  distinct, every handler refines the abstract operation on the screen view and
  keeps the array in step; duplicate texts break both (see C12 and C13).
\<close>

definition li_view :: "li \<Rightarrow> string \<times> bool" where
  "li_view l = (li_text l, li_got l)"

definition abs_page :: "page \<Rightarrow> spec_state" where
  "abs_page p = \<lparr>sitems = map li_view (real_lis p), sdemo = showingDemo p\<rparr>"

definition item_view :: "item \<Rightarrow> jsval \<times> bool" where
  "item_view it = (item_text it, truthy (item_got it))"

definition synced :: "page \<Rightarrow> bool" where
  "synced p \<longleftrightarrow> map item_view (items p) = map (\<lambda>l. (JStr (li_text l), li_got l)) (real_lis p)"

definition texts_distinct :: "page \<Rightarrow> bool" where
  "texts_distinct p \<longleftrightarrow> distinct (map li_text (real_lis p))"

lemma real_lis_nodemo: "dom_inv p \<Longrightarrow> \<not> showingDemo p \<Longrightarrow> real_lis p = lis p"
  by (simp add: dom_inv_def real_lis_def)

lemma del_first_remove_nth:
  "distinct (map li_text xs) \<Longrightarrow> i < length xs \<Longrightarrow>
   map li_view (remove_nth i xs) = del_first (li_text (xs ! i)) (map li_view xs)"
proof (induction xs arbitrary: i)
  case (Cons x xs)
  show ?case
  proof (cases i)
    case 0
    then show ?thesis by (simp add: li_view_def)
  next
    case (Suc k)
    with Cons.prems have k: "k < length xs" by simp
    have "li_text x \<notin> li_text ` set xs" using Cons.prems(1) by simp
    then have "li_text (xs ! k) \<noteq> li_text x" using nth_mem[OF k] by (metis imageI)
    with Cons.IH[of k] Cons.prems Suc show ?thesis by (simp add: li_view_def)
  qed
qed simp

lemma flip_first_list_update:
  "distinct (map li_text xs) \<Longrightarrow> i < length xs \<Longrightarrow>
   map li_view (xs[i := (xs ! i)\<lparr>li_got := \<not> li_got (xs ! i)\<rparr>]) = flip_first (li_text (xs ! i)) (map li_view xs)"
proof (induction xs arbitrary: i)
  case (Cons x xs)
  show ?case
  proof (cases i)
    case 0
    then show ?thesis by (simp add: li_view_def)
  next
    case (Suc k)
    with Cons.prems have k: "k < length xs" by simp
    have "li_text x \<notin> li_text ` set xs" using Cons.prems(1) by simp
    then have "li_text (xs ! k) \<noteq> li_text x" using nth_mem[OF k] by (metis imageI)
    with Cons.IH[of k] Cons.prems Suc show ?thesis by (simp add: li_view_def)
  qed
qed simp

lemma synced_nth:
  assumes "synced p" and "real_lis p = lis p"
  shows "length (items p) = length (lis p)"
    and "j < length (lis p) \<Longrightarrow> item_text (items p ! j) = JStr (li_text (lis p ! j))"
    and "j < length (lis p) \<Longrightarrow> truthy (item_got (items p ! j)) = li_got (lis p ! j)"
proof -
  have m: "map item_view (items p) = map (\<lambda>l. (JStr (li_text l), li_got l)) (lis p)"
    using assms by (simp add: synced_def)
  then show l: "length (items p) = length (lis p)" by (metis length_map)
  show "j < length (lis p) \<Longrightarrow> item_text (items p ! j) = JStr (li_text (lis p ! j))"
    using arg_cong[OF m, of "\<lambda>xs. xs ! j"] l by (simp add: item_view_def)
  show "j < length (lis p) \<Longrightarrow> truthy (item_got (items p ! j)) = li_got (lis p ! j)"
    using arg_cong[OF m, of "\<lambda>xs. xs ! j"] l by (simp add: item_view_def)
qed

lemma entry_not_demo:
  assumes "dom_inv p" and "i < length (lis p)" and "\<not> li_demo (lis p ! i)"
  shows "\<not> showingDemo p \<and> has_list (markup p)"
proof
  show "\<not> showingDemo p"
  proof
    assume "showingDemo p"
    with assms(1) have "lis p = demo_lis" by (simp add: dom_inv_def)
    with assms(2) have "li_demo (lis p ! i)" by (metis demo_lis_demo nth_mem)
    with assms(3) show False by simp
  qed
  show "has_list (markup p)" using assms(1,2) by (rule has_list_of_entry)
qed

lemma removeAt_fields:
  "has_list (markup p) \<Longrightarrow>
   lis (snd (removeAt i p)) = remove_nth i (lis p) \<and>
   items (snd (removeAt i p)) = filter (\<lambda>it. item_text it \<noteq> JStr (li_text (lis p ! i))) (items p) \<and>
   showingDemo (snd (removeAt i p)) = showingDemo p"
  by (simp add: removeAt_def updateStats_def saveItems_def Let_def)

lemma toggleAt_fields:
  "has_list (markup p) \<Longrightarrow>
   lis (snd (toggleAt i p)) = (lis p)[i := (lis p ! i)\<lparr>li_got := \<not> li_got (lis p ! i)\<rparr>] \<and>
   items (snd (toggleAt i p)) = update_first (\<lambda>it. item_text it = JStr (li_text (lis p ! i)))
      (\<lambda>it. it\<lparr>item_got := JBool (\<not> li_got (lis p ! i))\<rparr>) (items p) \<and>
   showingDemo (snd (toggleAt i p)) = showingDemo p"
  by (simp add: toggleAt_def updateStats_def saveItems_def Let_def)

lemma submitItem_fields:
  assumes "dom_inv p" and "has_list (markup p)" and "js_trim (input_value p) \<noteq> []"
  shows "real_lis (snd (submitItem p)) = real_lis p @ [real_li (js_trim (input_value p)) False] \<and>
         items (snd (submitItem p)) = items p @ [\<lparr>item_text = JStr (js_trim (input_value p)), item_got = JBool False\<rparr>] \<and>
         \<not> showingDemo (snd (submitItem p))"
proof (cases "showingDemo p")
  case True
  with assms(1) have "real_lis p = []" and "items p = []"
    by (simp_all add: real_lis_demo_mode dom_inv_def)
  with True assms(2,3) show ?thesis
    by (simp add: submitItem_def createItem_def updateStats_def saveItems_def Let_def real_lis_def real_li_def)
next
  case False
  with assms(2,3) show ?thesis
    by (simp add: submitItem_def createItem_def updateStats_def saveItems_def Let_def real_lis_def real_li_def)
qed

lemma submitItem_blank: "js_trim (input_value p) = [] \<Longrightarrow> snd (submitItem p) = p"
  by (simp add: submitItem_def)

lemma distinct_text_nth:
  "distinct (map li_text xs) \<Longrightarrow> i < length xs \<Longrightarrow> j < length xs \<Longrightarrow> j \<noteq> i \<Longrightarrow>
   li_text (xs ! j) \<noteq> li_text (xs ! i)"
  by (metis length_map nth_eq_iff_index_eq nth_map)

lemma abs_page_texts: "fst ` set (sitems (abs_page p)) = li_text ` set (real_lis p)"
  by (simp add: abs_page_def li_view_def image_image)

subsection \<open>Removing an entry refines \<open>SRemove\<close>\<close>

lemma removeAt_real_lis:
  assumes "dom_inv p" and "i < length (lis p)" and "\<not> li_demo (lis p ! i)"
  shows "real_lis p = lis p" and "real_lis (snd (removeAt i p)) = remove_nth i (lis p)"
proof -
  from entry_not_demo[OF assms] have nd: "\<not> showingDemo p" and hl: "has_list (markup p)" by simp_all
  then show "real_lis p = lis p" using assms(1) by (simp add: real_lis_nodemo)
  have "real_lis (snd (removeAt i p)) = lis (snd (removeAt i p))"
    using dom_inv_removeAt[OF assms] removeAt_fields[OF hl] nd by (simp add: real_lis_nodemo)
  then show "real_lis (snd (removeAt i p)) = remove_nth i (lis p)"
    using removeAt_fields[OF hl] by simp
qed

lemma abs_page_removeAt:
  assumes "dom_inv p" and "i < length (lis p)" and "\<not> li_demo (lis p ! i)" and "texts_distinct p"
  shows "abs_page (snd (removeAt i p)) = spec_step (abs_page p) (SRemove (li_text (lis p ! i)))"
proof -
  note r = removeAt_real_lis[OF assms(1-3)]
  have "showingDemo (snd (removeAt i p)) = showingDemo p"
    using removeAt_fields entry_not_demo[OF assms(1-3)] by blast
  then show ?thesis
    using assms(2,4) r del_first_remove_nth[of "lis p" i]
    by (simp add: abs_page_def texts_distinct_def)
qed

lemma texts_distinct_removeAt:
  assumes "dom_inv p" and "i < length (lis p)" and "\<not> li_demo (lis p ! i)" and "texts_distinct p"
  shows "texts_distinct (snd (removeAt i p))"
  using assms(4) removeAt_real_lis[OF assms(1-3)]
  by (simp add: texts_distinct_def map_remove_nth distinct_remove_nth)

text \<open>
  With distinct texts, \<open>items.filter (i => i.text !== text)\<close> (line 119) is
  the removal of the clicked position.
\<close>

lemma items_removeAt_positional:
  assumes "dom_inv p" and "i < length (lis p)" and "\<not> li_demo (lis p ! i)" and "texts_distinct p"
    and "synced p"
  shows "items (snd (removeAt i p)) = remove_nth i (items p)"
proof -
  note r = removeAt_real_lis[OF assms(1-3)]
  have hl: "has_list (markup p)" using entry_not_demo[OF assms(1-3)] by simp
  note s = synced_nth[OF assms(5) r(1)]
  have d: "distinct (map li_text (lis p))" using assms(4) r(1) by (simp add: texts_distinct_def)
  let ?P = "\<lambda>it. item_text it = JStr (li_text (lis p ! i))"
  have "filter (\<lambda>it. \<not> ?P it) (items p) = remove_nth i (items p)"
  proof (rule filter_unique_at)
    show "i < length (items p)" using s(1) assms(2) by simp
    show "?P (items p ! i)" using s(2) assms(2) by simp
    show "\<forall>j < length (items p). j \<noteq> i \<longrightarrow> \<not> ?P (items p ! j)"
      using s(1,2) distinct_text_nth[OF d assms(2)] by simp
  qed
  then show ?thesis using removeAt_fields[OF hl] by simp
qed

lemma synced_removeAt:
  assumes "dom_inv p" and "i < length (lis p)" and "\<not> li_demo (lis p ! i)" and "texts_distinct p"
    and "synced p"
  shows "synced (snd (removeAt i p))"
proof -
  note r = removeAt_real_lis[OF assms(1-3)]
  have "map item_view (items p) = map (\<lambda>l. (JStr (li_text l), li_got l)) (lis p)"
    using assms(5) r(1) by (simp add: synced_def)
  then show ?thesis
    using r(2) items_removeAt_positional[OF assms] by (simp add: synced_def map_remove_nth)
qed

subsection \<open>Toggling an entry refines \<open>SToggle\<close>\<close>

lemma toggleAt_real_lis:
  assumes "dom_inv p" and "i < length (lis p)" and "\<not> li_demo (lis p ! i)"
  shows "real_lis (snd (toggleAt i p)) = (lis p)[i := (lis p ! i)\<lparr>li_got := \<not> li_got (lis p ! i)\<rparr>]"
proof -
  from entry_not_demo[OF assms] have nd: "\<not> showingDemo p" and hl: "has_list (markup p)" by simp_all
  have "real_lis (snd (toggleAt i p)) = lis (snd (toggleAt i p))"
    using dom_inv_toggleAt[OF assms] toggleAt_fields[OF hl] nd by (simp add: real_lis_nodemo)
  then show ?thesis using toggleAt_fields[OF hl] by simp
qed

lemma abs_page_toggleAt:
  assumes "dom_inv p" and "i < length (lis p)" and "\<not> li_demo (lis p ! i)" and "texts_distinct p"
  shows "abs_page (snd (toggleAt i p)) = spec_step (abs_page p) (SToggle (li_text (lis p ! i)))"
proof -
  from entry_not_demo[OF assms(1-3)] have nd: "\<not> showingDemo p" and hl: "has_list (markup p)" by simp_all
  then have r: "real_lis p = lis p" using assms(1) by (simp add: real_lis_nodemo)
  have "showingDemo (snd (toggleAt i p)) = showingDemo p" using toggleAt_fields[OF hl] by simp
  then show ?thesis
    using assms(2,4) r toggleAt_real_lis[OF assms(1-3)] flip_first_list_update[of "lis p" i]
    by (simp add: abs_page_def texts_distinct_def)
qed

lemma texts_distinct_toggleAt:
  assumes "dom_inv p" and "i < length (lis p)" and "\<not> li_demo (lis p ! i)" and "texts_distinct p"
  shows "texts_distinct (snd (toggleAt i p))"
proof -
  from entry_not_demo[OF assms(1-3)] have "\<not> showingDemo p" by simp
  then have "real_lis p = lis p" using assms(1) by (simp add: real_lis_nodemo)
  moreover have "(map li_text (lis p))[i := li_text (lis p ! i)] = map li_text (lis p)"
    by (metis assms(2) list_update_id nth_map)
  ultimately show ?thesis
    using assms(4) toggleAt_real_lis[OF assms(1-3)] by (simp add: texts_distinct_def map_update)
qed

text \<open>
  With distinct texts, \<open>items.find (i => i.text === text)\<close> (line 132) finds
  the clicked position, so the mutation of \<open>obj.got\<close> updates that position.
\<close>

lemma items_toggleAt_positional:
  assumes "dom_inv p" and "i < length (lis p)" and "\<not> li_demo (lis p ! i)" and "texts_distinct p"
    and "synced p"
  shows "items (snd (toggleAt i p)) =
           (items p)[i := (items p ! i)\<lparr>item_got := JBool (\<not> li_got (lis p ! i))\<rparr>]"
proof -
  from entry_not_demo[OF assms(1-3)] have nd: "\<not> showingDemo p" and hl: "has_list (markup p)" by simp_all
  then have r: "real_lis p = lis p" using assms(1) by (simp add: real_lis_nodemo)
  note s = synced_nth[OF assms(5) r]
  have d: "distinct (map li_text (lis p))" using assms(4) r by (simp add: texts_distinct_def)
  let ?P = "\<lambda>it. item_text it = JStr (li_text (lis p ! i))"
  let ?f = "\<lambda>it. it\<lparr>item_got := JBool (\<not> li_got (lis p ! i))\<rparr>"
  have "update_first ?P ?f (items p) = (items p)[i := ?f (items p ! i)]"
  proof (rule update_first_at)
    show "i < length (items p)" using s(1) assms(2) by simp
    show "?P (items p ! i)" using s(2) assms(2) by simp
    show "\<forall>j < i. \<not> ?P (items p ! j)"
      using s(2) distinct_text_nth[OF d assms(2)] assms(2) by simp
  qed
  then show ?thesis using toggleAt_fields[OF hl] by simp
qed

lemma synced_toggleAt:
  assumes "dom_inv p" and "i < length (lis p)" and "\<not> li_demo (lis p ! i)" and "texts_distinct p"
    and "synced p"
  shows "synced (snd (toggleAt i p))"
proof -
  from entry_not_demo[OF assms(1-3)] have "\<not> showingDemo p" by simp
  then have r: "real_lis p = lis p" using assms(1) by (simp add: real_lis_nodemo)
  note s = synced_nth[OF assms(5) r]
  have "map item_view (items p) = map (\<lambda>l. (JStr (li_text l), li_got l)) (lis p)"
    using assms(5) r by (simp add: synced_def)
  then show ?thesis
    using items_toggleAt_positional[OF assms] toggleAt_real_lis[OF assms(1-3)] s(2) assms(2)
    by (simp add: synced_def map_update item_view_def)
qed

subsection \<open>Adding an entry refines \<open>SAdd\<close>\<close>

lemma abs_page_submitItem:
  assumes "dom_inv p" and "has_list (markup p)"
  shows "abs_page (snd (submitItem p)) = spec_step (abs_page p) (SAdd (input_value p))"
proof (cases "js_trim (input_value p) = []")
  case True
  then show ?thesis by (simp add: submitItem_blank spec_add_def)
next
  case False
  with submitItem_fields[OF assms] show ?thesis
    by (simp add: abs_page_def spec_add_def Let_def li_view_def real_li_def)
qed

lemma synced_submitItem:
  assumes "dom_inv p" and "has_list (markup p)" and "synced p"
  shows "synced (snd (submitItem p))"
proof (cases "js_trim (input_value p) = []")
  case True
  with assms(3) show ?thesis by (simp add: submitItem_blank)
next
  case False
  with submitItem_fields[OF assms(1,2)] assms(3) show ?thesis
    by (simp add: synced_def item_view_def real_li_def)
qed

lemma texts_distinct_submitItem:
  assumes "dom_inv p" and "has_list (markup p)" and "texts_distinct p"
    and "js_trim (input_value p) \<notin> li_text ` set (real_lis p)"
  shows "texts_distinct (snd (submitItem p))"
proof (cases "js_trim (input_value p) = []")
  case True
  with assms(3) show ?thesis by (simp add: submitItem_blank)
next
  case False
  with submitItem_fields[OF assms(1,2)] assms(3,4) show ?thesis
    by (simp add: texts_distinct_def real_li_def)
qed

subsection \<open>The other handlers leave the abstract list alone\<close>

lemma views_list_part:
  assumes "list_part q = list_part p"
  shows "abs_page q = abs_page p" and "synced q = synced p" and "texts_distinct q = texts_distinct p"
  using assms
  by (simp_all add: list_part_def abs_page_def synced_def texts_distinct_def real_lis_def)

lemma li_view_filterDisplay [simp]: "li_view (filterDisplay f l) = li_view l"
  by (simp add: li_view_def)

lemma views_clickFilter:
  "abs_page (snd (clickFilter b f p)) = abs_page p"
  "synced (snd (clickFilter b f p)) = synced p"
  "texts_distinct (snd (clickFilter b f p)) = texts_distinct p"
  by (simp_all add: real_lis_clickFilter abs_page_def synced_def texts_distinct_def comp_def)
     (simp_all add: clickFilter_def)

lemma views_keyDown:
  "abs_page (snd (keyDown k p)) = abs_page p"
  "synced (snd (keyDown k p)) = synced p"
  "texts_distinct (snd (keyDown k p)) = texts_distinct p"
  by (simp_all add: keyDown_def abs_page_def synced_def texts_distinct_def real_lis_def)

lemma synced_item_texts:
  assumes "synced p" and "it \<in> set (items p)"
  shows "\<exists>s. item_text it = JStr s"
proof -
  have "item_view it \<in> item_view ` set (items p)" using assms(2) by simp
  also have "item_view ` set (items p) = (\<lambda>l. (JStr (li_text l), li_got l)) ` set (real_lis p)"
    using assms(1) unfolding synced_def by (metis set_map)
  finally obtain l :: li where "item_view it = (JStr (li_text l), li_got l)" by blast
  then show ?thesis by (auto simp: item_view_def)
qed

end
