(* ===== verification/Persistence.thy ===== *)
theory Persistence
  imports ListRefinement
begin

text \<open>
  The stored list and the items array.  \<open>saved p\<close>: what \<open>localStorage\<close>
  returns for \<open>shoppingList\<close> is the JSON round trip of the items array, as
  \<open>saveItems\<close> (lines 167--169) leaves it.  Every handler that changes the array
  saves it; reloading a saved page reads the array back through
  \<open>DOMContentLoaded\<close> (lines 27--34) and rebuilds the entries.
\<close>

definition saved :: "page \<Rightarrow> bool" where
  "saved p \<longleftrightarrow> parse_item (store p) ''shoppingList'' = Inr (json_rt (JArr (map item_json (items p))))"

text \<open>An item as \<open>JSON.parse (JSON.stringify (item))\<close> gives it back to \<open>createItem\<close>.\<close>

definition reload_item :: "item \<Rightarrow> item" where
  "reload_item it =
     \<lparr>item_text = json_rt (item_text it),
      item_got = (if item_got it = JUndef then JBool False else json_rt (item_got it))\<rparr>"

lemma saved_saveItems: "saved (snd (saveItems p))"
  by (simp add: saved_def saveItems_def)

lemma saved_store_cong:
  "store q ''shoppingList'' = store p ''shoppingList'' \<Longrightarrow> items q = items p \<Longrightarrow> saved q = saved p"
  by (simp add: saved_def parse_item_def)

lemma saved_removeAt: "has_list (markup p) \<Longrightarrow> saved (snd (removeAt i p))"
  by (simp add: removeAt_def updateStats_def Let_def saved_saveItems)

lemma saved_toggleAt: "has_list (markup p) \<Longrightarrow> saved (snd (toggleAt i p))"
  by (simp add: toggleAt_def updateStats_def Let_def saved_saveItems)

lemma saved_submitItem:
  "has_list (markup p) \<Longrightarrow> js_trim (input_value p) \<noteq> [] \<Longrightarrow> saved (snd (submitItem p))"
  by (simp add: submitItem_def createItem_def updateStats_def Let_def saved_saveItems)

subsection \<open>Reading the array back\<close>

lemma truthy_json_rt [simp]: "truthy (json_rt v) = truthy v"
  by (cases v) auto

lemma json_rt_JUndef_iff [simp]: "json_rt v = JUndef \<longleftrightarrow> v = JUndef"
  by (cases v) auto

lemma item_json_rt: "json_rt (JArr (map item_json its)) = JArr (map (\<lambda>it. json_rt (item_json it)) its)"
  by (simp add: item_json_def)

lemma reload_item_simps [simp]:
  "item_text (reload_item it) = json_rt (item_text it)"
  "truthy (item_got (reload_item it)) = truthy (item_got it)"
  by (simp_all add: reload_item_def)

lemma get_prop_item_json:
  "get_prop (json_rt (item_json it)) ''text'' = Inr (json_rt (item_text it))"
  "get_prop (json_rt (item_json it)) ''got'' =
     Inr (if item_got it = JUndef then JUndef else json_rt (item_got it))"
  by (simp_all add: item_json_def)

lemma loadEntries_saved:
  assumes "has_list (markup p)"
  shows "fst (loadEntries (map (\<lambda>it. json_rt (item_json it)) its) p) = None \<and>
         lis (snd (loadEntries (map (\<lambda>it. json_rt (item_json it)) its) p)) =
           lis p @ map (\<lambda>it. real_li (dom_text (json_rt (item_text it))) (truthy (item_got it))) its \<and>
         items (snd (loadEntries (map (\<lambda>it. json_rt (item_json it)) its) p)) = items p @ map reload_item its \<and>
         showingDemo (snd (loadEntries (map (\<lambda>it. json_rt (item_json it)) its) p)) = showingDemo p \<and>
         markup (snd (loadEntries (map (\<lambda>it. json_rt (item_json it)) its) p)) = markup p"
  using assms
proof (induction its arbitrary: p)
  case (Cons it its)
  let ?q = "snd (createItem (json_rt (item_text it))
                 (if item_got it = JUndef then JUndef else json_rt (item_got it)) p)"
  have c: "fst (createItem (json_rt (item_text it))
                 (if item_got it = JUndef then JUndef else json_rt (item_got it)) p) = None"
    and q: "lis ?q = lis p @ [real_li (dom_text (json_rt (item_text it))) (truthy (item_got it))]"
           "items ?q = items p @ [reload_item it]" "showingDemo ?q = showingDemo p" "markup ?q = markup p"
    using Cons.prems by (simp_all add: createItem_def updateStats_def reload_item_def)
  have "loadEntries (map (\<lambda>it. json_rt (item_json it)) (it # its)) p =
        loadEntries (map (\<lambda>it. json_rt (item_json it)) its) ?q"
    using c by (cases "createItem (json_rt (item_text it))
                 (if item_got it = JUndef then JUndef else json_rt (item_got it)) p")
               (simp add: get_prop_item_json)
  then show ?case using Cons.IH[of ?q] Cons.prems q by simp
qed simp

lemma real_lis_demo_lis [simp]: "real_lis (p\<lparr>lis := demo_lis, showingDemo := True\<rparr>) = []"
  by (simp add: real_lis_def demo_lis_def demo_li_def)

lemma initItems_saved:
  assumes "has_list (markup p)" and "lis p = []" and "items p = []"
    and "parse_item (store p) ''shoppingList'' = Inr (json_rt (JArr (map item_json its)))"
  shows "fst (initItems p) = None \<and>
         real_lis (snd (initItems p)) =
           map (\<lambda>it. real_li (dom_text (json_rt (item_text it))) (truthy (item_got it))) its \<and>
         items (snd (initItems p)) = map reload_item its"
proof (cases "its = []")
  case True
  with assms show ?thesis
    by (simp add: initItems_def showDemoItems_def item_json_def flip: demo_lis_def)
next
  case False
  let ?objs = "map (\<lambda>it. json_rt (item_json it)) its"
  note l = loadEntries_saved[OF assms(1), of its]
  have "initItems p = exc_bind (loadEntries ?objs p) updateStats"
    using assms(4) False by (simp only: initItems_def item_json_rt) (simp add: item_json_def)
  moreover obtain q where "loadEntries ?objs p = (None, q)" using l by (cases "loadEntries ?objs p") simp
  ultimately show ?thesis
    using l assms(1-3) by (simp add: updateStats_def real_lis_def real_li_def)
qed

lemma synced_map:
  assumes "synced p" and "\<And>t g. k (JStr t, g) = k' t g"
  shows "map (\<lambda>it. k (item_view it)) (items p) = map (\<lambda>l. k' (li_text l) (li_got l)) (real_lis p)"
proof -
  have "map k (map item_view (items p)) = map k (map (\<lambda>l. (JStr (li_text l), li_got l)) (real_lis p))"
    using assms(1) by (simp add: synced_def)
  then show ?thesis using assms(2) by (simp add: comp_def)
qed

lemma reloaded_views:
  assumes "synced p"
  shows "map (\<lambda>it. li_view (real_li (dom_text (json_rt (item_text it))) (truthy (item_got it)))) (items p) =
           map li_view (real_lis p)"
    and "map (\<lambda>it. item_view (reload_item it)) (items p) =
           map (\<lambda>it. (JStr (li_text (real_li (dom_text (json_rt (item_text it))) (truthy (item_got it)))),
                      li_got (real_li (dom_text (json_rt (item_text it))) (truthy (item_got it))))) (items p)"
proof -
  show "map (\<lambda>it. li_view (real_li (dom_text (json_rt (item_text it))) (truthy (item_got it)))) (items p) =
          map li_view (real_lis p)"
    using synced_map[OF assms, of "\<lambda>(v, g). (dom_text (json_rt v), g)" "\<lambda>t g. (t, g)"]
    by (simp add: item_view_def li_view_def real_li_def)
  have "map (\<lambda>it. item_view (reload_item it)) (items p) = map (\<lambda>l. (JStr (li_text l), li_got l)) (real_lis p)"
    using synced_map[OF assms, of "\<lambda>(v, g). (json_rt v, g)" "\<lambda>t g. (JStr t, g)"]
    by (simp add: item_view_def)
  also have "\<dots> = map (\<lambda>it. (JStr (li_text (real_li (dom_text (json_rt (item_text it))) (truthy (item_got it)))),
                      li_got (real_li (dom_text (json_rt (item_text it))) (truthy (item_got it))))) (items p)"
    using synced_map[OF assms, of "\<lambda>(v, g). (JStr (dom_text (json_rt v)), g)" "\<lambda>t g. (JStr t, g)"]
    by (simp add: item_view_def real_li_def)
  finally show "map (\<lambda>it. item_view (reload_item it)) (items p) = \<dots>" .
qed

end
