(* ===== verification/ProfileController.thy ===== *)
theory ProfileController
  imports Page
begin

text \<open>
  The profile part of \<open>src/scripts.js\<close>: loading the stored profile at
  \<open>DOMContentLoaded\<close> (lines 37--41), \<open>updateProfileUI\<close> (lines 180--186)
  and the submit handler of the registration form (lines 189--202).  The
  profile is the JavaScript value \<open>profile\<close>, \<open>null\<close> until loaded.
\<close>

definition default_profile :: jsval where
  "default_profile = JObj [(''username'', JStr ''Demo User''), (''email'', JStr ''user@example.com'')]"

text \<open>
  \<open>updateProfileUI\<close>: nothing on a page without the card; otherwise the name
  slot gets \<open>profile.username\<close> and the email slot
  \<open>"Email: " + profile.email\<close>.  Both reads throw on a null profile.
\<close>

definition updateProfileUI :: "page \<Rightarrow> outcome" where
  "updateProfileUI p =
     (if \<not> has_card (markup p) then (None, p)
      else
        (case get_prop (profile p) ''username'' of
           Inl e \<Rightarrow> (Some e, p)
         | Inr u \<Rightarrow>
             (let p1 = p\<lparr>card_name := Some (dom_text u)\<rparr> in
              case get_prop (profile p1) ''email'' of
                Inl e \<Rightarrow> (Some e, p1)
              | Inr em \<Rightarrow> (None, p1\<lparr>card_email := Some (''Email: '' @ js_to_string em)\<rparr>))))"

text \<open>\<open>profile = JSON.parse (localStorage.getItem ("userProfile")) || {...}; updateProfileUI ()\<close>.\<close>

definition loadProfile :: "page \<Rightarrow> outcome" where
  "loadProfile p =
     (case parse_item (store p) ''userProfile'' of
        Inl e \<Rightarrow> (Some e, p)
      | Inr v \<Rightarrow> updateProfileUI (p\<lparr>profile := (if truthy v then v else default_profile)\<rparr>))"

text \<open>
  The register handler: the three trimmed fields must all be non-empty; the
  password is read and dropped.  Then the profile is replaced and stored, the
  user alerted, and the page navigates to \<open>profile.html\<close>.
\<close>

definition submitRegister :: "string \<Rightarrow> string \<Rightarrow> string \<Rightarrow> page \<Rightarrow> outcome" where
  "submitRegister username email password p =
     (let u = js_trim username; e = js_trim email; pw = js_trim password in
      if truthy (JStr u) \<and> truthy (JStr e) \<and> truthy (JStr pw)
      then
        (let pr = JObj [(''username'', JStr u), (''email'', JStr e)] in
         (None, p\<lparr>profile := pr, store := set_item (store p) ''userProfile'' pr,
                  alerts := alerts p @ [''Registered! Profile saved.''],
                  location := Some ''profile.html''\<rparr>))
      else (None, p))"

subsection \<open>Frame: the profile handlers leave the list alone\<close>

lemma list_part_updateProfileUI [simp]: "list_part (snd (updateProfileUI p)) = list_part p"
  by (simp add: updateProfileUI_def list_part_def Let_def split: sum.splits)

lemma list_part_loadProfile [simp]: "list_part (snd (loadProfile p)) = list_part p"
proof -
  have "list_part (p\<lparr>profile := v\<rparr>) = list_part p" for v
    by (simp add: list_part_def)
  then show ?thesis
    by (simp add: loadProfile_def split: sum.splits)
qed

lemma list_part_submitRegister [simp]: "list_part (snd (submitRegister u e pw p)) = list_part p"
  by (simp add: submitRegister_def list_part_def Let_def)

lemma shoppingList_submitRegister [simp]:
  "store (snd (submitRegister u e pw p)) ''shoppingList'' = store p ''shoppingList''"
  by (simp add: submitRegister_def Let_def set_item_def)

lemma store_loadProfile [simp]: "store (snd (loadProfile p)) = store p"
  by (simp add: loadProfile_def updateProfileUI_def Let_def split: sum.splits)

subsection \<open>Functional behaviour\<close>

lemma submitRegister_rejects:
  "js_trim u = [] \<or> js_trim e = [] \<or> js_trim pw = [] \<Longrightarrow> submitRegister u e pw p = (None, p)"
  by (auto simp: submitRegister_def Let_def)

lemma submitRegister_accepts:
  assumes "js_trim u \<noteq> []" and "js_trim e \<noteq> []" and "js_trim pw \<noteq> []"
  shows "parse_item (store (snd (submitRegister u e pw p))) ''userProfile'' =
           Inr (JObj [(''username'', JStr (js_trim u)), (''email'', JStr (js_trim e))])
         \<and> location (snd (submitRegister u e pw p)) = Some ''profile.html''"
  using assms by (simp add: submitRegister_def Let_def)

lemma updateProfileUI_obj:
  assumes "has_card (markup p)" and "profile p = JObj kvs"
  shows "updateProfileUI p =
           (None, p\<lparr>card_name := Some (dom_text (case map_of kvs ''username'' of Some v \<Rightarrow> v | None \<Rightarrow> JUndef)),
                    card_email := Some (''Email: '' @ js_to_string (case map_of kvs ''email'' of Some v \<Rightarrow> v | None \<Rightarrow> JUndef))\<rparr>)"
  using assms by (simp add: updateProfileUI_def Let_def)

end
