(* ===== verification/Spec2Isabelle.thy ===== *)
theory Spec2Isabelle
  imports Persistence ProfileController
begin

text \<open>
  \<^bold>\<open>A verification model of \<open>src/scripts.js\<close> (shopping list and profile).\<close>

  \<^emph>\<open>The program.\<close>  One browser script, loaded by every page of the site.  At
  \<open>DOMContentLoaded\<close> it loads the list from \<open>localStorage\<close> key
  \<open>shoppingList\<close> (or shows two demo entries when it is empty) and then the
  profile from key \<open>userProfile\<close>.  Handlers react to the item form (add),
  clicks in the list (remove, check off), the filter bar (all / got / need),
  Escape (clear the input) and the registration form (store a profile and go to
  \<open>profile.html\<close>).  Module-level variables (\<open>totalItems\<close>,
  \<open>gotItems\<close>, \<open>items\<close>, \<open>showingDemo\<close>, \<open>profile\<close>) and the DOM
  are the state; every mutation of the list rewrites the whole stored array.

  \<^emph>\<open>Theories.\<close>
  \<^item> \<open>Prelude\<close>: the handler outcome type \<open>('e, 's) exc\<close> (the uncaught
    exception, if any, and the state reached, with every effect before the
    throw kept) and its sequencing \<open>exc_bind\<close>; \<open>remove_nth\<close>
    (\<open>li.remove()\<close>) and \<open>update_first\<close> (\<open>find\<close> then mutate the
    found array element); shared list lemmas.
  \<^item> \<open>JsValues\<close>: the JavaScript values the script sees (\<open>jsval\<close>:
    everything \<open>JSON.parse\<close> returns plus \<open>undefined\<close>), \<open>truthy\<close>,
    \<open>js_to_string\<close> (ToString, with \<open>Array.prototype.join\<close>),
    \<open>dom_text\<close> (the \<open>textContent\<close> setter), \<open>get_prop\<close> (property
    reads, TypeError on null and undefined), \<open>json_rt\<close> (what
    \<open>JSON.parse (JSON.stringify v)\<close> gives back) and \<open>js_trim\<close>
    (\<open>String.prototype.trim\<close>); lemmas on trim and on the JSON round trip.
  \<^item> \<open>Storage\<close>: \<open>localStorage\<close> as a map from keys to a parsed JSON value
    or unparsable text; \<open>parse_item\<close> is \<open>JSON.parse (getItem k)\<close>,
    \<open>set_item\<close> is \<open>setItem (k, JSON.stringify v)\<close>.
  \<^item> \<open>Page\<close>: the state of one page session as the record \<open>page\<close>: the
    markup present (\<open>has_list\<close>, \<open>has_card\<close>, \<open>has_register\<close>), the
    list entries (\<open>li\<close>: demo and got classes, span text, disabled button,
    display style), the module variables, the item input, the stat fields, the
    profile card, storage, alerts, navigation and reported errors.
    \<open>list_part\<close> is the part the list controller owns: the interface by
    which the two controllers are kept apart.
  \<^item> \<open>ListController\<close>: one definition per function or handler of lines
    24--177 (\<open>showDemoItems\<close>, \<open>updateStats\<close>, \<open>saveItems\<close>,
    \<open>createItem\<close>, \<open>loadEntries\<close> and \<open>initItems\<close> for the load,
    \<open>submitItem\<close>, \<open>clickList\<close> with \<open>removeAt\<close> and \<open>toggleAt\<close>,
    \<open>clickFilter\<close>, \<open>keyDown\<close>), each returning the exception it throws
    and the page it leaves; the invariants \<open>stats_inv\<close> (counters equal the
    counts of real entries; stat fields show total, got and total - got) and
    \<open>dom_inv\<close> (entries only on list pages; demo mode is exactly the two demo
    entries and no items; no demo entry otherwise), proved operation by
    operation.
  \<^item> \<open>ProfileController\<close>: \<open>loadProfile\<close>, \<open>updateProfileUI\<close> and
    \<open>submitRegister\<close> (lines 36--41, 179--202), with the frame lemmas that
    they leave \<open>list_part\<close> unchanged.
  \<^item> \<open>ListSpec\<close>: the abstract list of the design, independent of the DOM:
    an ordered list of \<open>(text, got)\<close> pairs and the demo flag, with
    \<open>spec_step\<close> for add (trimmed, non-blank), toggle and remove (first entry
    with the text), and \<open>spec_fresh\<close> (an addition does not repeat a text).
  \<^item> \<open>ListRefinement\<close>: the abstraction \<open>abs_page\<close> (the real entries on
    screen and the demo flag), \<open>synced\<close> (the \<open>items\<close> array lists the real
    entries in order, texts as strings, with their checked state) and
    \<open>texts_distinct\<close>; operation by operation, \<open>submitItem\<close>,
    \<open>removeAt\<close> and \<open>toggleAt\<close> refine \<open>SAdd\<close>, \<open>SRemove\<close> and
    \<open>SToggle\<close> and keep \<open>synced\<close>, and with distinct texts the text-keyed
    \<open>items.filter\<close> and \<open>items.find\<close> act on the clicked position.
  \<^item> \<open>Persistence\<close>: \<open>saved\<close> (the stored list is the JSON of
    \<open>items\<close>), that each mutating handler ends saved, and how the load reads
    a saved array back (\<open>reload_item\<close>, \<open>loadEntries_saved\<close>,
    \<open>initItems_saved\<close>).
  \<^item> this theory: the events a page receives (\<open>event\<close>), \<open>dispatch\<close> to
    the handlers the page registered, \<open>report\<close> of uncaught exceptions,
    \<open>domLoaded\<close> and \<open>start_page\<close> (a session after
    \<open>DOMContentLoaded\<close>), \<open>step\<close> and \<open>run\<close> (one event at a time, a
    navigation ending the session), \<open>reload\<close> (a new session on the same
    storage), the \<open>reachable\<close> pages (an inductive predicate over every
    markup and every well-formed storage), the design's state machine
    (\<open>phase_step\<close>, an inductive relation on \<open>phase\<close>), the abstract
    operation of each event (\<open>abs_event\<close>, \<open>event_op\<close>), and the
    properties C1--C25.

  \<^emph>\<open>Properties.\<close>  C1: in every reachable page the counters count the real
  entries and the stat fields show \<open>remaining = total - got\<close> (rule induction
  over \<open>reachable\<close> with the two invariants).  C2--C8: the testable
  properties of the design: blank submissions change nothing, loading empty
  storage shows the demo entries and writes nothing, the first addition clears
  the demo, an addition survives a reload, a click on an entry flips exactly
  that entry and moves \<open>gotItems\<close> by one, the got filter, a blank password
  changes nothing.  C9--C11: the real list is never left (a step of the state
  machine \<open>phase_step\<close>), only a submission leaves demo display, demo entries
  ignore clicks.  C12--C18 are the findings, each stated for every page where
  it applies: removing one of two same-text entries drops every item with the
  text from the array and, after a reload, from the list; toggling a later
  same-text entry updates the earlier item; stored data that is not an array
  or does not parse makes the load throw; \<open>{"length": 0}\<close> selects the demo;
  pages without the list never load the profile; Escape throws where there is
  no input.  C19--C25 relate the page to the abstract list: with distinct texts
  every event refines its abstract operation (C19) and keeps the array in step
  with the screen (C20); no change of the array is left unsaved (C21); saving
  and reloading restores the abstract list (C22); the keyed array updates are
  the positional ones (C23); a removal whose text matches no item (an entry
  loaded from a non-string text) leaves the array as it was, so a reload shows
  the entry again (C24, a finding); whole sessions simulate the abstract list,
  operation by operation (C25).

  \<^emph>\<open>Modelling choices.\<close>  JavaScript numbers are integers (the program only
  counts); strings are code points below 256, so white space for \<open>trim\<close> is
  tab, LF, VT, FF, CR, space and no-break space.  No loop needs fuel: the only
  loop is \<open>forEach\<close> over the stored array, structural recursion
  (\<open>loadEntries\<close>).  A click names the entry it lands on by position and must
  land on an existing entry (\<open>target_ok\<close>).  Typing is the environment event
  \<open>TypeInput\<close>; the registration fields are passed with the submission.

  \<^emph>\<open>Not modelled.\<close>  The HTML pages and CSS are not in the sources: which
  element groups a page has is the parameter \<open>markup\<close>, and styling (colours,
  opacity) is left out.  \<open>alert\<close> is recorded, not shown;
  \<open>localStorage\<close> quota errors and concurrent tabs are not modelled;
  \<open>JSON.parse\<close> of text is abstracted to the value it yields, and an
  object read takes the first binding of a key where \<open>JSON.parse\<close> keeps
  the last; the two agree on objects with distinct keys, which is every object
  the script writes.  \<open>updateProfileUI\<close> assumes a card that has both its
  \<open>strong\<close> and its last paragraph: the null checks at lines 183 and 185
  are not modelled.
\<close>

section \<open>The page: events and sessions\<close>

text \<open>
  The events a page session sees after \<open>DOMContentLoaded\<close>: the user typing
  into the item input, submitting the item form, clicking in the list or the
  filter bar, pressing a key, and submitting the registration form with the
  three field values.  An event only reaches a handler the page registered:
  the item form, list and filter bar exist with the list markup, the register
  form with the register markup, the keydown handler always.
\<close>

datatype event =
    TypeInput string
  | SubmitItem
  | ClickList target
  | ClickFilter bool "string option"
  | KeyDown string
  | SubmitRegister string string string

fun dispatch :: "event \<Rightarrow> page \<Rightarrow> outcome" where
  "dispatch (TypeInput s) p =
     (if has_list (markup p) then (None, p\<lparr>input_value := s\<rparr>) else (None, p))"
| "dispatch SubmitItem p = (if has_list (markup p) then submitItem p else (None, p))"
| "dispatch (ClickList t) p =
     (if has_list (markup p) \<and> target_ok t p then clickList t p else (None, p))"
| "dispatch (ClickFilter b f) p = (if has_list (markup p) then clickFilter b f p else (None, p))"
| "dispatch (KeyDown k) p = keyDown k p"
| "dispatch (SubmitRegister u e pw) p =
     (if has_register (markup p) then submitRegister u e pw p else (None, p))"

text \<open>An uncaught exception ends the handler and is reported; its effects stay.\<close>

definition report :: "outcome \<Rightarrow> page" where
  "report r = (case r of (None, p) \<Rightarrow> p | (Some e, p) \<Rightarrow> p\<lparr>errors := errors p @ [e]\<rparr>)"

text \<open>The \<open>DOMContentLoaded\<close> handler (lines 25--42): the list, then the profile.\<close>

definition domLoaded :: "page \<Rightarrow> outcome" where
  "domLoaded p = exc_bind (initItems p) loadProfile"

definition start_page :: "markup \<Rightarrow> storage \<Rightarrow> page" where
  "start_page m st = report (domLoaded (init_page m st))"

text \<open>A navigation ends the session: later events belong to another page.\<close>

definition step :: "page \<Rightarrow> event \<Rightarrow> page" where
  "step p ev = (if location p \<noteq> None then p else report (dispatch ev p))"

fun run :: "page \<Rightarrow> event list \<Rightarrow> page" where
  "run p [] = p"
| "run p (ev # evs) = run (step p ev) evs"

text \<open>A new session on the same storage, as a reload or a navigation starts.\<close>

definition reload :: "markup \<Rightarrow> page \<Rightarrow> page" where
  "reload m p = start_page m (store p)"

inductive reachable :: "page \<Rightarrow> bool" where
  start: "storage_ok st \<Longrightarrow> reachable (start_page m st)"
| step: "reachable p \<Longrightarrow> reachable (step p ev)"

definition page_inv :: "page \<Rightarrow> bool" where
  "page_inv p \<longleftrightarrow> stats_inv p \<and> dom_inv p"

text \<open>The page of the shopping list, without profile card or register form.\<close>

abbreviation list_markup :: markup where
  "list_markup \<equiv> \<lparr>has_list = True, has_card = False, has_register = False\<rparr>"

datatype phase = Uninitialized | DemoDisplay | RealList

inductive phase_step :: "phase \<Rightarrow> phase \<Rightarrow> bool" where
  load_demo: "phase_step Uninitialized DemoDisplay"
| load_list: "phase_step Uninitialized RealList"
| demo_stay: "phase_step DemoDisplay DemoDisplay"
| first_add: "phase_step DemoDisplay RealList"
| list_stay: "phase_step RealList RealList"

definition phase_of :: "page \<Rightarrow> phase" where
  "phase_of p = (if showingDemo p then DemoDisplay else RealList)"

abbreviation profile_markup :: markup where
  "profile_markup \<equiv> \<lparr>has_list = False, has_card = True, has_register = False\<rparr>"

text \<open>
  The abstract operation an event performs on the list of \<open>ListSpec\<close>: a
  submission of the item form adds the input, a click on the remove button of a
  real entry removes its text, a click on the text or the entry of a real entry
  toggles its text; every other event, and every event after a navigation,
  leaves the abstract list alone.
\<close>

fun abs_event :: "page \<Rightarrow> event \<Rightarrow> spec_op" where
  "abs_event p SubmitItem = (if has_list (markup p) then SAdd (input_value p) else SSkip)"
| "abs_event p (ClickList (RemoveBtn i)) =
     (if i < length (lis p) \<and> \<not> li_demo (lis p ! i) then SRemove (li_text (lis p ! i)) else SSkip)"
| "abs_event p (ClickList (ItemText i)) =
     (if i < length (lis p) \<and> \<not> li_demo (lis p ! i) then SToggle (li_text (lis p ! i)) else SSkip)"
| "abs_event p (ClickList (ItemLi i)) =
     (if i < length (lis p) \<and> \<not> li_demo (lis p ! i) then SToggle (li_text (lis p ! i)) else SSkip)"
| "abs_event p _ = SSkip"

definition event_op :: "page \<Rightarrow> event \<Rightarrow> spec_op" where
  "event_op p ev = (if location p = None then abs_event p ev else SSkip)"

text \<open>
  Along a run: the abstract operations of its events, each read on the page
  the event meets, and whether each addition is fresh there.
\<close>

fun ops_of :: "page \<Rightarrow> event list \<Rightarrow> spec_op list" where
  "ops_of p [] = []"
| "ops_of p (ev # evs) = event_op p ev # ops_of (step p ev) evs"

fun fresh_run :: "page \<Rightarrow> event list \<Rightarrow> bool" where
  "fresh_run p [] = True"
| "fresh_run p (ev # evs) = (spec_fresh (abs_page p) (event_op p ev) \<and> fresh_run (step p ev) evs)"

section \<open>Invariants of every reachable page\<close>

lemma list_part_report [simp]: "list_part (report r) = list_part (snd r)"
  by (simp add: report_def list_part_def split: prod.splits option.splits)

lemma page_inv_list_part: "list_part q = list_part p \<Longrightarrow> page_inv q = page_inv p"
  by (simp add: page_inv_def stats_inv_list_part[of q p] dom_inv_list_part[of q p])

lemma page_inv_frame: "page_inv p \<Longrightarrow> list_part q = list_part p \<Longrightarrow> page_inv q"
  using page_inv_list_part by blast

lemma page_inv_start: "page_inv (start_page m st)"
proof -
  let ?p0 = "init_page m st"
  have s0: "stats_inv ?p0" and l0: "lis ?p0 = []" and d0: "\<not> showingDemo ?p0" and i0: "items ?p0 = []"
    by (simp_all add: init_page_def stats_inv_def counts_ok_def shown_ok_def real_lis_def)
  have "page_inv (snd (initItems ?p0))"
    unfolding page_inv_def using stats_inv_initItems[OF s0] dom_inv_initItems[OF l0 d0 i0] by simp
  then have "page_inv (snd (domLoaded ?p0))"
    unfolding domLoaded_def
    by (rule exc_bind_preserve[where P = page_inv]) (erule page_inv_frame, simp)
  then show ?thesis
    unfolding start_page_def by (rule page_inv_frame) simp
qed

lemma list_part_TypeInput: "list_part (snd (dispatch (TypeInput s) p)) = list_part p"
  by (simp add: list_part_def)

lemma page_inv_dispatch: "page_inv p \<Longrightarrow> page_inv (snd (dispatch ev p))"
proof (cases ev)
  case (TypeInput s)
  assume "page_inv p"
  then have "page_inv (snd (dispatch (TypeInput s) p))"
    by (rule page_inv_frame[OF _ list_part_TypeInput])
  then show ?thesis using TypeInput by simp
next
  case SubmitItem
  assume "page_inv p"
  then show ?thesis using SubmitItem
    by (simp add: page_inv_def stats_inv_submitItem dom_inv_submitItem)
next
  case (ClickList t)
  assume "page_inv p"
  then show ?thesis using ClickList
    by (simp add: page_inv_def stats_inv_clickList dom_inv_clickList)
next
  case (ClickFilter b f)
  assume "page_inv p"
  then show ?thesis using ClickFilter
    by (simp add: page_inv_def stats_inv_clickFilter dom_inv_clickFilter)
next
  case (KeyDown k)
  assume "page_inv p"
  then show ?thesis using KeyDown
    by (simp add: page_inv_def stats_inv_keyDown dom_inv_keyDown)
next
  case (SubmitRegister u e pw)
  assume "page_inv p"
  then have "page_inv (snd (dispatch (SubmitRegister u e pw) p))"
    by (rule page_inv_frame) simp
  then show ?thesis using SubmitRegister by simp
qed

lemma page_inv_step: "page_inv p \<Longrightarrow> page_inv (step p ev)"
proof -
  assume inv: "page_inv p"
  have "page_inv (report (dispatch ev p))"
    by (rule page_inv_frame[OF page_inv_dispatch[OF inv]]) simp
  with inv show ?thesis by (simp add: step_def)
qed

lemma reachable_page_inv: "reachable p \<Longrightarrow> page_inv p"
proof (induction rule: reachable.induct)
  case (start st m)
  show ?case by (rule page_inv_start)
next
  case (step p ev)
  from step.IH show ?case by (rule page_inv_step)
qed

lemma reachable_run: "reachable p \<Longrightarrow> reachable (run p evs)"
  by (induction evs arbitrary: p) (simp_all add: reachable.step)

lemma report_None [simp]: "report (None, p) = p"
  by (simp add: report_def)

lemma step_no_handler: "dispatch ev p = (None, p) \<Longrightarrow> step p ev = p"
  by (simp add: step_def)

lemma store_report [simp]: "store (report r) = store (snd r)"
  by (simp add: report_def split: prod.splits option.splits)

lemma list_part_start_page: "list_part (start_page m st) = list_part (snd (initItems (init_page m st)))"
proof -
  have "list_part (snd (domLoaded (init_page m st))) = list_part (snd (initItems (init_page m st)))"
    unfolding domLoaded_def by (cases "initItems (init_page m st)") (auto simp: exc_bind_def split: option.splits)
  then show ?thesis by (simp add: start_page_def)
qed

inductive_cases phase_step_RealListE [elim!]: "phase_step RealList q"

inductive_cases phase_step_to_DemoE [elim!]: "phase_step q DemoDisplay"

lemma phase_step_from_loaded: "q \<noteq> Uninitialized \<Longrightarrow> phase_step q (phase_of p) \<longleftrightarrow> (q = RealList \<longrightarrow> \<not> showingDemo p)"
  by (cases q) (auto simp: phase_of_def intro: phase_step.intros)

lemma showingDemo_dispatch:
  "showingDemo (snd (dispatch ev p)) \<Longrightarrow> showingDemo p"
proof (cases ev)
  case SubmitItem
  moreover assume "showingDemo (snd (dispatch ev p))"
  ultimately show ?thesis
    by (auto simp: submitItem_def saveItems_def Let_def exc_bind_def split: if_splits option.splits prod.splits)
      (metis showingDemo_createItem snd_conv)+
next
  case (ClickList t)
  moreover assume "showingDemo (snd (dispatch ev p))"
  ultimately show ?thesis
    by (cases t) (auto simp: clickList_def removeAt_def toggleAt_def updateStats_def saveItems_def Let_def split: if_splits)
qed (auto simp: clickFilter_def keyDown_def submitRegister_def Let_def split: if_splits)

lemma showingDemo_report [simp]: "showingDemo (report r) = showingDemo (snd r)"
  by (simp add: report_def split: prod.splits option.splits)

lemma showingDemo_step: "showingDemo (step p ev) \<Longrightarrow> showingDemo p"
  by (auto simp: step_def split: if_splits dest: showingDemo_dispatch)

lemma showingDemo_other_event:
  "ev \<noteq> SubmitItem \<Longrightarrow> showingDemo (step p ev) = showingDemo p"
proof (cases ev)
  case (ClickList t)
  then show ?thesis
    by (cases t) (auto simp: step_def clickList_def removeAt_def toggleAt_def updateStats_def saveItems_def Let_def)
qed (auto simp: step_def clickFilter_def keyDown_def submitRegister_def Let_def)

lemma start_page_load_error:
  "fst (initItems (init_page m st)) = Some e \<Longrightarrow> start_page m st = report (initItems (init_page m st))"
  by (cases "initItems (init_page m st)") (simp add: start_page_def domLoaded_def)

lemma views_report:
  "abs_page (report r) = abs_page (snd r)" "synced (report r) = synced (snd r)"
  "texts_distinct (report r) = texts_distinct (snd r)"
  by (simp_all add: views_list_part[OF list_part_report])

lemma dispatch_entry:
  assumes "dom_inv p" and "t \<in> {RemoveBtn i, ItemText i, ItemLi i}"
  shows "dispatch (ClickList t) p =
           (if i < length (lis p) \<and> \<not> li_demo (lis p ! i) then clickList t p else (None, p))"
  using assms has_list_of_entry[OF assms(1), of i] by (auto simp: clickList_def)

lemma abs_page_dispatch:
  assumes "dom_inv p" and "texts_distinct p"
  shows "abs_page (snd (dispatch ev p)) = spec_step (abs_page p) (abs_event p ev)"
proof (cases ev)
  case (ClickList t)
  show ?thesis
  proof (cases t)
    case (RemoveBtn i)
    with ClickList show ?thesis
      using dispatch_entry[OF assms(1), of t i] abs_page_removeAt[OF assms(1) _ _ assms(2), of i]
      by (simp add: clickList_def)
  next
    case (ItemText i)
    with ClickList show ?thesis
      using dispatch_entry[OF assms(1), of t i] abs_page_toggleAt[OF assms(1) _ _ assms(2), of i]
      by (simp add: clickList_def)
  next
    case (ItemLi i)
    with ClickList show ?thesis
      using dispatch_entry[OF assms(1), of t i] abs_page_toggleAt[OF assms(1) _ _ assms(2), of i]
      by (simp add: clickList_def)
  qed (simp add: ClickList clickList_def)
next
  case SubmitItem
  then show ?thesis using abs_page_submitItem[OF assms(1)] by simp
next
  case (TypeInput s)
  then show ?thesis using views_list_part(1)[OF list_part_TypeInput] by simp
next
  case (SubmitRegister u e pw)
  then show ?thesis using views_list_part(1)[OF list_part_submitRegister] by simp
qed (simp_all add: views_clickFilter views_keyDown)

lemma synced_dispatch:
  assumes "dom_inv p" and "synced p" and "texts_distinct p" and "spec_fresh (abs_page p) (abs_event p ev)"
  shows "synced (snd (dispatch ev p)) \<and> texts_distinct (snd (dispatch ev p))"
proof (cases ev)
  case (ClickList t)
  show ?thesis
  proof (cases t)
    case (RemoveBtn i)
    with ClickList show ?thesis
      using dispatch_entry[OF assms(1), of t i] assms(2,3)
        synced_removeAt[OF assms(1) _ _ assms(3,2), of i] texts_distinct_removeAt[OF assms(1) _ _ assms(3), of i]
      by (simp add: clickList_def)
  next
    case (ItemText i)
    with ClickList show ?thesis
      using dispatch_entry[OF assms(1), of t i] assms(2,3)
        synced_toggleAt[OF assms(1) _ _ assms(3,2), of i] texts_distinct_toggleAt[OF assms(1) _ _ assms(3), of i]
      by (simp add: clickList_def)
  next
    case (ItemLi i)
    with ClickList show ?thesis
      using dispatch_entry[OF assms(1), of t i] assms(2,3)
        synced_toggleAt[OF assms(1) _ _ assms(3,2), of i] texts_distinct_toggleAt[OF assms(1) _ _ assms(3), of i]
      by (simp add: clickList_def)
  qed (simp add: ClickList clickList_def assms(2,3))
next
  case SubmitItem
  then show ?thesis
    using assms(2-4) synced_submitItem[OF assms(1) _ assms(2)] texts_distinct_submitItem[OF assms(1) _ assms(3)]
    by (auto simp: abs_page_texts)
next
  case (TypeInput s)
  then show ?thesis using views_list_part(2,3)[OF list_part_TypeInput] assms(2,3) by simp
next
  case (SubmitRegister u e pw)
  then show ?thesis using views_list_part(2,3)[OF list_part_submitRegister] assms(2,3) by simp
qed (simp_all add: views_clickFilter views_keyDown assms(2,3))

lemma items_report [simp]: "items (report r) = items (snd r)"
  by (simp add: report_def split: prod.splits option.splits)

lemma saved_report [simp]: "saved (report r) = saved (snd r)"
  by (rule saved_store_cong) simp_all

lemma saved_or_untouched_dispatch:
  "saved (snd (dispatch ev p)) \<or>
   (items (snd (dispatch ev p)) = items p \<and> store (snd (dispatch ev p)) ''shoppingList'' = store p ''shoppingList'')"
proof (cases ev)
  case SubmitItem
  then show ?thesis
    using saved_submitItem[of p] submitItem_blank[of p] by (cases "js_trim (input_value p) = []") auto
next
  case (ClickList t)
  then show ?thesis
    using saved_removeAt[of p] saved_toggleAt[of p] by (cases t) (auto simp: clickList_def)
next
  case (SubmitRegister u e pw)
  then show ?thesis by (simp add: submitRegister_def Let_def set_item_def)
qed (simp_all add: clickFilter_def keyDown_def)

lemma step_views:
  assumes "page_inv p" and "synced p" and "texts_distinct p" and "spec_fresh (abs_page p) (event_op p ev)"
  shows "abs_page (step p ev) = spec_step (abs_page p) (event_op p ev) \<and>
         synced (step p ev) \<and> texts_distinct (step p ev)"
  using abs_page_dispatch[of p ev] synced_dispatch[of p ev] assms
  by (cases "location p") (simp_all add: step_def event_op_def views_report page_inv_def)

lemma report_list_fields [simp]:
  "lis (report r) = lis (snd r)" "totalItems (report r) = totalItems (snd r)"
  "gotItems (report r) = gotItems (snd r)" "shown (report r) = shown (snd r)"
  by (simp_all add: report_def split: prod.splits option.splits)

lemma reload_saved:
  assumes "saved q" and "has_list m"
  shows "real_lis (reload m q) =
           map (\<lambda>it. real_li (dom_text (json_rt (item_text it))) (truthy (item_got it))) (items q) \<and>
         items (reload m q) = map reload_item (items q)"
proof -
  let ?p0 = "init_page m (store q)"
  have "parse_item (store ?p0) ''shoppingList'' = Inr (json_rt (JArr (map item_json (items q))))"
    using assms(1) by (simp add: saved_def init_page_def)
  then have "real_lis (snd (initItems ?p0)) =
      map (\<lambda>it. real_li (dom_text (json_rt (item_text it))) (truthy (item_got it))) (items q) \<and>
      items (snd (initItems ?p0)) = map reload_item (items q)"
    using initItems_saved[of ?p0 "items q"] assms(2) by (simp add: init_page_def)
  moreover have "list_part (reload m q) = list_part (snd (initItems ?p0))"
    by (simp add: reload_def list_part_start_page)
  ultimately show ?thesis by (simp add: list_part_def real_lis_def)
qed

lemma entry_step:
  assumes "page_inv p" and "location p = None" and "i < length (lis p)" and "\<not> li_demo (lis p ! i)"
  shows "step p (ClickList (RemoveBtn i)) = report (removeAt i p)"
    and "step p (ClickList (ItemText i)) = report (toggleAt i p)"
    and "dom_inv p" and "\<not> showingDemo p" and "has_list (markup p)" and "real_lis p = lis p"
proof -
  show d: "dom_inv p" using assms(1) by (simp add: page_inv_def)
  show "\<not> showingDemo p" and hl: "has_list (markup p)" using entry_not_demo[OF d assms(3,4)] by simp_all
  then show "real_lis p = lis p" using d by (simp add: real_lis_nodemo)
  show "step p (ClickList (RemoveBtn i)) = report (removeAt i p)"
    and "step p (ClickList (ItemText i)) = report (toggleAt i p)"
    using assms(2-4) hl by (simp_all add: step_def clickList_def)
qed

lemmas page_eval =
  start_page_def domLoaded_def init_page_def initItems_def parse_item_def showDemoItems_def
  loadProfile_def updateProfileUI_def report_def step_def submitItem_def createItem_def
  updateStats_def saveItems_def set_item_def js_trim_def js_ws_def real_li_def demo_li_def
  item_json_def default_profile_def removeAt_def toggleAt_def clickList_def clickFilter_def
  filterDisplay_def keyDown_def submitRegister_def real_lis_def reload_def Let_def

section \<open>Properties of the program\<close>

text \<open>
  C1. In every page session, whatever was stored and whatever the user did,
  \<open>totalItems\<close> is the number of real entries in the list, \<open>gotItems\<close> the
  number of them checked off, and the stat fields show either the page's own
  markup or exactly \<open>total\<close>, \<open>got\<close> and \<open>remaining = total - got\<close>.
\<close>

theorem stats_consistent:
  assumes "reachable p"
  shows "totalItems p = int (length (real_lis p)) \<and>
         gotItems p = int (length (filter li_got (real_lis p))) \<and>
         (shown p = None \<or> shown p = Some (totalItems p, gotItems p, totalItems p - gotItems p))"
  using reachable_page_inv[OF assms] unfolding page_inv_def stats_inv_def counts_ok_def shown_ok_def
  by blast

theorem stats_consistent_witness:
  "reachable (run (start_page list_markup Map.empty)
                [TypeInput ''Bread'', SubmitItem]) \<and>
   shown (run (start_page list_markup Map.empty)
                [TypeInput ''Bread'', SubmitItem]) = Some (1, 0, 1)"
proof -
  let ?p = "run (start_page list_markup Map.empty)
                [TypeInput ''Bread'', SubmitItem]"
  have r: "reachable ?p"
    by (rule reachable_run, rule reachable.start) simp
  have "totalItems ?p = 1 \<and> gotItems ?p = 0 \<and> shown ?p \<noteq> None"
    by (simp add: page_eval)
  then show ?thesis using stats_consistent[OF r] r by auto
qed

text \<open>
  C2. Submitting the item form when the input is empty or white space only
  changes nothing: no entry, no counter, no storage write.
\<close>

theorem submit_whitespace_noop: "js_trim (input_value p) = [] \<Longrightarrow> step p SubmitItem = p"
  by (rule step_no_handler) (simp add: submitItem_def)

theorem submit_whitespace_noop_witness:
  "js_trim (input_value (run (start_page list_markup Map.empty) [TypeInput '' ''])) = [] \<and>
   step (run (start_page list_markup Map.empty) [TypeInput '' '']) SubmitItem =
     run (start_page list_markup Map.empty) [TypeInput '' '']"
proof -
  have h: "js_trim (input_value (run (start_page list_markup Map.empty) [TypeInput '' ''])) = []"
    by (simp add: page_eval)
  show ?thesis using h submit_whitespace_noop[OF h] by simp
qed

text \<open>
  C3. Loading a list page whose stored list is absent, empty or falsy shows the
  two demo entries, counts nothing, keeps no items and writes nothing to storage.
\<close>

theorem init_empty_storage_demo:
  assumes "has_list m" and "parse_item st ''shoppingList'' = Inr v" and "\<not> truthy v \<or> v = JArr []"
  shows "lis (start_page m st) = demo_lis \<and> showingDemo (start_page m st) \<and>
         items (start_page m st) = [] \<and> totalItems (start_page m st) = 0 \<and>
         gotItems (start_page m st) = 0 \<and> store (start_page m st) = st"
proof -
  let ?q = "(init_page m st)\<lparr>lis := demo_lis, showingDemo := True\<rparr>"
  have "initItems (init_page m st) = (None, ?q)"
    using initItems_demo[of "init_page m st" v] assms by (simp add: init_page_def)
  then have "list_part (start_page m st) = list_part ?q" and "store (start_page m st) = st"
    by (simp_all add: start_page_def domLoaded_def init_page_def)
  then show ?thesis by (simp add: list_part_def init_page_def)
qed

theorem init_empty_storage_demo_witness:
  "has_list list_markup \<and> parse_item Map.empty ''shoppingList'' = Inr JNull \<and> \<not> truthy JNull \<and>
   lis (start_page list_markup Map.empty) = demo_lis \<and> store (start_page list_markup Map.empty) = Map.empty"
  using init_empty_storage_demo[of list_markup Map.empty JNull] by simp

text \<open>
  C4. In demo mode, the first non-blank submission removes the demo entries
  and leaves exactly the new entry, unchecked, counted once, in the list and in
  the items array; demo mode ends.
\<close>

theorem first_add_clears_demo:
  assumes "reachable p" and "location p = None" and "showingDemo p"
    and "js_trim (input_value p) = t" and "t \<noteq> []"
  shows "lis (step p SubmitItem) = [real_li t False] \<and>
         items (step p SubmitItem) = [\<lparr>item_text = JStr t, item_got = JBool False\<rparr>] \<and>
         \<not> showingDemo (step p SubmitItem) \<and>
         totalItems (step p SubmitItem) = 1 \<and> gotItems (step p SubmitItem) = 0"
proof -
  have inv: "page_inv p" using assms(1) by (rule reachable_page_inv)
  then have hl: "has_list (markup p)" and it: "items p = []" and rl: "real_lis p = []"
    using assms(3) by (auto simp: page_inv_def dom_inv_def real_lis_demo_mode)
  have "totalItems p = 0" and "gotItems p = 0"
    using inv rl by (simp_all add: page_inv_def stats_inv_def counts_ok_def)
  then show ?thesis
    using assms(2-5) hl it
    by (simp add: step_def submitItem_def createItem_def updateStats_def saveItems_def report_def)
qed

theorem first_add_clears_demo_witness:
  "reachable (run (start_page list_markup Map.empty) [TypeInput ''Bread'']) \<and>
   lis (run (start_page list_markup Map.empty) [TypeInput ''Bread'', SubmitItem]) = [real_li ''Bread'' False]"
proof -
  let ?p = "run (start_page list_markup Map.empty) [TypeInput ''Bread'']"
  have r: "reachable ?p" by (rule reachable_run, rule reachable.start) simp
  have l: "location ?p = None" and d: "showingDemo ?p" and t: "js_trim (input_value ?p) = ''Bread''"
    by (simp_all add: page_eval)
  have "lis (step ?p SubmitItem) = [real_li ''Bread'' False]"
    using first_add_clears_demo[OF r l d t] by simp
  then show ?thesis using r by simp
qed

text \<open>
  C5. Adding an item to a page with no items persists it so that a reload, on
  any page with the list, shows it as the one unchecked entry.
\<close>

theorem add_then_reload:
  assumes "location p = None" and "has_list (markup p)" and "items p = []"
    and "js_trim (input_value p) = t" and "t \<noteq> []" and "has_list m"
  shows "lis (reload m (step p SubmitItem)) = [real_li t False] \<and>
         items (reload m (step p SubmitItem)) = [\<lparr>item_text = JStr t, item_got = JBool False\<rparr>] \<and>
         \<not> showingDemo (reload m (step p SubmitItem))"
proof -
  let ?q = "step p SubmitItem"
  have st: "store ?q ''shoppingList'' = Some (Json (JArr [JObj [(''text'', JStr t), (''got'', JBool False)]]))"
    using assms(1-5)
    by (simp add: step_def submitItem_def createItem_def updateStats_def saveItems_def set_item_def
        item_json_def report_def Let_def)
  have "list_part (reload m ?q) = list_part (snd (initItems (init_page m (store ?q))))"
    by (simp add: reload_def list_part_start_page)
  also have "\<dots> = list_part ((init_page m (store ?q))\<lparr>
        lis := [real_li t False], totalItems := 1, gotItems := 0, shown := Some (1, 0, 1),
        items := [\<lparr>item_text = JStr t, item_got = JBool False\<rparr>]\<rparr>)"
    using st assms(6)
    by (simp add: initItems_def parse_item_def init_page_def createItem_def updateStats_def list_part_def)
  finally show ?thesis by (simp add: list_part_def init_page_def)
qed

theorem add_then_reload_witness:
  "lis (reload list_markup (step (run (start_page list_markup Map.empty) [TypeInput ''Bread'']) SubmitItem)) =
     [real_li ''Bread'' False] \<and> location (run (start_page list_markup Map.empty) [TypeInput ''Bread'']) = None"
proof -
  let ?p = "run (start_page list_markup Map.empty) [TypeInput ''Bread'']"
  have a: "location ?p = None" "has_list (markup ?p)" "items ?p = []" "js_trim (input_value ?p) = ''Bread''"
    by (simp_all add: page_eval)
  show ?thesis using add_then_reload[OF a, of list_markup] a(1) by simp
qed

text \<open>
  C6. Clicking the text of a real entry flips its checked state and nothing
  else on screen, moves \<open>gotItems\<close> by one in the direction of the new
  state, leaves \<open>totalItems\<close> alone, shows the new stats and saves the list.
\<close>

theorem toggle_flips_entry:
  assumes "reachable p" and "location p = None" and "i < length (lis p)" and "\<not> li_demo (lis p ! i)"
  shows "lis (step p (ClickList (ItemText i))) = (lis p)[i := (lis p ! i)\<lparr>li_got := \<not> li_got (lis p ! i)\<rparr>] \<and>
         totalItems (step p (ClickList (ItemText i))) = totalItems p \<and>
         gotItems (step p (ClickList (ItemText i))) =
           (if li_got (lis p ! i) then gotItems p - 1 else gotItems p + 1) \<and>
         shown (step p (ClickList (ItemText i))) =
           Some (totalItems p, gotItems (step p (ClickList (ItemText i))),
                 totalItems p - gotItems (step p (ClickList (ItemText i)))) \<and>
         saved (step p (ClickList (ItemText i)))"
proof -
  note e = entry_step[OF reachable_page_inv[OF assms(1)] assms(2-4)]
  show ?thesis
    using e(2,5) saved_toggleAt[OF e(5), of i]
    by (simp add: toggleAt_def updateStats_def saveItems_def Let_def)
qed

theorem toggle_flips_entry_witness:
  "gotItems (step (run (start_page list_markup Map.empty) [TypeInput ''Bread'', SubmitItem])
                  (ClickList (ItemText 0))) = 1"
proof -
  let ?p = "run (start_page list_markup Map.empty) [TypeInput ''Bread'', SubmitItem]"
  have r: "reachable ?p" by (rule reachable_run, rule reachable.start) simp
  have a: "location ?p = None" "0 < length (lis ?p)" "\<not> li_demo (lis ?p ! 0)"
    and g: "gotItems ?p = 0" "\<not> li_got (lis ?p ! 0)"
    by (simp_all add: page_eval)
  show ?thesis using toggle_flips_entry[OF r a] g by simp
qed

text \<open>
  C7. The \<open>got\<close> filter hides the unchecked real entries, shows the checked
  ones, leaves demo entries as they are, and changes no counter, item or
  stored value.
\<close>

theorem filter_got:
  assumes "location p = None" and "has_list (markup p)"
  shows "lis (step p (ClickFilter True (Some ''got''))) =
           map (\<lambda>l. if li_demo l then l else l\<lparr>li_display := (if li_got l then DFlex else DNone)\<rparr>) (lis p) \<and>
         totalItems (step p (ClickFilter True (Some ''got''))) = totalItems p \<and>
         gotItems (step p (ClickFilter True (Some ''got''))) = gotItems p \<and>
         items (step p (ClickFilter True (Some ''got''))) = items p \<and>
         store (step p (ClickFilter True (Some ''got''))) = store p"
  using assms by (simp add: step_def clickFilter_def filterDisplay_def)

theorem filter_got_witness:
  "lis (step (start_page list_markup Map.empty) (ClickFilter True (Some ''got''))) = demo_lis \<and>
   location (start_page list_markup Map.empty) = None"
proof -
  have a: "location (start_page list_markup Map.empty) = None" "has_list (markup (start_page list_markup Map.empty))"
    "lis (start_page list_markup Map.empty) = demo_lis"
    by (simp_all add: page_eval demo_lis_def)
  show ?thesis using filter_got[OF a(1,2)] a(1,3) by (simp add: demo_lis_def demo_li_def)
qed

text \<open>
  C8. Submitting the registration form with a blank password (or a blank name
  or email) changes nothing: the stored profile stays as it was.
\<close>

theorem register_blank_password: "js_trim pw = [] \<Longrightarrow> step p (SubmitRegister u e pw) = p"
  by (rule step_no_handler) (simp add: submitRegister_def Let_def)

theorem register_blank_password_witness:
  "js_trim '' '' = [] \<and>
   step (start_page list_markup Map.empty) (SubmitRegister ''ann'' ''a@b.c'' '' '') = start_page list_markup Map.empty"
proof -
  have h: "js_trim '' '' = []" by (simp add: js_trim_def)
  show ?thesis using h register_blank_password[OF h] by simp
qed

text \<open>
  C9. Once the real list is shown, no sequence of events brings the demo
  entries back within the session.
\<close>

theorem real_list_terminal: "phase_of p = RealList \<Longrightarrow> phase_of (run p evs) = RealList"
proof (induction evs arbitrary: p)
  case Nil
  then show ?case by simp
next
  case (Cons ev evs)
  have "phase_step (phase_of p) (phase_of (step p ev))"
    unfolding phase_of_def using showingDemo_step
    by (cases "showingDemo p") (auto intro: phase_step.intros)
  with Cons.prems have "phase_of (step p ev) = RealList" by auto
  then show ?case using Cons.IH by simp
qed

theorem real_list_terminal_witness:
  "phase_of (run (start_page list_markup Map.empty) [TypeInput ''Bread'', SubmitItem]) = RealList \<and>
   phase_of (run (run (start_page list_markup Map.empty) [TypeInput ''Bread'', SubmitItem])
     [ClickList (RemoveBtn 0)]) = RealList"
proof -
  have h: "phase_of (run (start_page list_markup Map.empty) [TypeInput ''Bread'', SubmitItem]) = RealList"
    by (simp add: page_eval phase_of_def)
  show ?thesis using h real_list_terminal[OF h, of "[ClickList (RemoveBtn 0)]"] by simp
qed

text \<open>
  C10. Demo display ends only by a submission of the item form: no click, key,
  filter or registration leaves it.
\<close>

theorem demo_exit_only_by_add:
  "phase_of p = DemoDisplay \<Longrightarrow> phase_of (step p ev) = RealList \<Longrightarrow> ev = SubmitItem"
  using showingDemo_other_event[of ev p] by (auto simp: phase_of_def split: if_splits)

theorem demo_exit_only_by_add_witness:
  "phase_of (start_page list_markup Map.empty) = DemoDisplay \<and>
   phase_of (step (run (start_page list_markup Map.empty) [TypeInput ''Bread'']) SubmitItem) = RealList \<and>
   phase_of (run (start_page list_markup Map.empty) [TypeInput ''Bread'']) = DemoDisplay"
proof -
  let ?p = "run (start_page list_markup Map.empty) [TypeInput ''Bread'']"
  have a: "phase_of ?p = DemoDisplay" "phase_of (step ?p SubmitItem) = RealList"
    "phase_of (start_page list_markup Map.empty) = DemoDisplay"
    by (simp_all add: page_eval phase_of_def)
  have "SubmitItem = SubmitItem" using demo_exit_only_by_add[OF a(1,2)] .
  then show ?thesis using a by simp
qed

text \<open>
  C11. Demo entries are not interactive: in demo display any click in the
  list, on an entry, its text or its remove button, leaves the page unchanged.
\<close>

theorem demo_clicks_ignored: "reachable p \<Longrightarrow> showingDemo p \<Longrightarrow> step p (ClickList t) = p"
proof -
  assume r: "reachable p" and d: "showingDemo p"
  then have "lis p = demo_lis" using reachable_page_inv[OF r] by (simp add: page_inv_def dom_inv_def)
  then have "\<forall>i < length (lis p). li_demo (lis p ! i)"
    by (auto simp: demo_lis_def demo_li_def nth_Cons split: nat.splits)
  then have "dispatch (ClickList t) p = (None, p)"
    by (cases t) (auto simp: clickList_def)
  then show ?thesis by (rule step_no_handler)
qed

theorem demo_clicks_ignored_witness:
  "reachable (start_page list_markup Map.empty) \<and> showingDemo (start_page list_markup Map.empty) \<and>
   step (start_page list_markup Map.empty) (ClickList (RemoveBtn 1)) = start_page list_markup Map.empty"
proof -
  have r: "reachable (start_page list_markup Map.empty)" by (rule reachable.start) simp
  have d: "showingDemo (start_page list_markup Map.empty)" by (simp add: page_eval)
  show ?thesis using r d demo_clicks_ignored[OF r d] by simp
qed

text \<open>
  C12. Removing one of two real entries with the same text deletes every
  item with that text from the array: the other entry stays on screen, but the
  array holds no item with the text, and after a reload no entry has it.
\<close>

theorem remove_duplicate_drops_all:
  assumes "page_inv p" and "synced p" and "location p = None" and "has_list m"
    and "i < length (lis p)" and "j < length (lis p)" and "j \<noteq> i"
    and "\<not> li_demo (lis p ! i)" and "li_text (lis p ! j) = li_text (lis p ! i)"
  shows "lis p ! j \<in> set (real_lis (step p (ClickList (RemoveBtn i)))) \<and>
         (\<forall>it \<in> set (items (step p (ClickList (RemoveBtn i)))). item_text it \<noteq> JStr (li_text (lis p ! i))) \<and>
         li_text (lis p ! i) \<notin> li_text ` set (real_lis (reload m (step p (ClickList (RemoveBtn i)))))"
proof -
  note e = entry_step[OF assms(1,3,5,8)]
  let ?q = "step p (ClickList (RemoveBtn i))"
  have f: "lis ?q = remove_nth i (lis p)"
    "items ?q = filter (\<lambda>it. item_text it \<noteq> JStr (li_text (lis p ! i))) (items p)"
    "showingDemo ?q = showingDemo p"
    using removeAt_fields[OF e(5), of i] e(1) by simp_all
  have rq: "real_lis ?q = remove_nth i (lis p)"
    using removeAt_real_lis(2)[OF e(3) assms(5,8)] e(1) by (simp add: real_lis_def)
  have "lis p ! j \<in> set (remove_nth i (lis p))"
    using assms(6,7) by (rule nth_mem_remove_nth)
  moreover have "li_text (lis p ! i) \<notin> li_text ` set (real_lis (reload m ?q))"
  proof
    assume "li_text (lis p ! i) \<in> li_text ` set (real_lis (reload m ?q))"
    then obtain it where it: "it \<in> set (items ?q)"
      and t: "dom_text (json_rt (item_text it)) = li_text (lis p ! i)"
      using conjunct1[OF reload_saved[OF _ assms(4)]] saved_removeAt[OF e(5), of i] e(1)
      by (auto simp: real_li_def)
    then have "it \<in> set (items p)" and ne: "item_text it \<noteq> JStr (li_text (lis p ! i))" using f(2) by auto
    then obtain s where "item_text it = JStr s" using synced_item_texts[OF assms(2)] by blast
    with t ne show False by simp
  qed
  ultimately show ?thesis using rq f(2) by simp
qed

theorem remove_duplicate_drops_all_witness:
  "''Milk'' \<notin> li_text ` set (real_lis (reload list_markup
     (step (run (start_page list_markup Map.empty) [TypeInput ''Milk'', SubmitItem, TypeInput ''Milk'', SubmitItem])
           (ClickList (RemoveBtn 1)))))"
proof -
  let ?p = "run (start_page list_markup Map.empty) [TypeInput ''Milk'', SubmitItem, TypeInput ''Milk'', SubmitItem]"
  have i: "page_inv ?p" by (rule reachable_page_inv, rule reachable_run, rule reachable.start) simp
  have h: "synced ?p" "location ?p = None" "has_list list_markup" "1 < length (lis ?p)" "0 < length (lis ?p)"
    "(0::nat) \<noteq> 1" "\<not> li_demo (lis ?p ! 1)" "li_text (lis ?p ! 0) = li_text (lis ?p ! 1)"
    and t: "li_text (lis ?p ! 1) = ''Milk''"
    by (simp_all add: page_eval synced_def item_view_def)
  show ?thesis using remove_duplicate_drops_all[OF i h] t by simp
qed

text \<open>
  C13. Checking off a real entry whose text also belongs to an earlier entry
  flips the clicked entry on screen, but \<open>items.find\<close> returns the first
  item with the text: the array updates the earlier item and leaves the
  clicked one as it was.
\<close>

theorem toggle_duplicate_flips_first:
  assumes "page_inv p" and "synced p" and "location p = None"
    and "k < j" and "j < length (lis p)" and "\<not> li_demo (lis p ! j)"
    and "li_text (lis p ! k) = li_text (lis p ! j)" and "\<forall>n < k. li_text (lis p ! n) \<noteq> li_text (lis p ! j)"
  shows "lis (step p (ClickList (ItemText j))) = (lis p)[j := (lis p ! j)\<lparr>li_got := \<not> li_got (lis p ! j)\<rparr>] \<and>
         items (step p (ClickList (ItemText j))) =
           (items p)[k := (items p ! k)\<lparr>item_got := JBool (\<not> li_got (lis p ! j))\<rparr>]"
proof -
  note e = entry_step[OF assms(1,3,5,6)]
  note s = synced_nth[OF assms(2) e(6)]
  let ?P = "\<lambda>it. item_text it = JStr (li_text (lis p ! j))"
  let ?f = "\<lambda>it. it\<lparr>item_got := JBool (\<not> li_got (lis p ! j))\<rparr>"
  have "update_first ?P ?f (items p) = (items p)[k := ?f (items p ! k)]"
  proof (rule update_first_at)
    show "k < length (items p)" using s(1) assms(4,5) by simp
    show "?P (items p ! k)" using s(2) assms(4,5,7) by simp
    show "\<forall>n < k. \<not> ?P (items p ! n)" using s(2) assms(4,5,8) by simp
  qed
  then show ?thesis using toggleAt_fields[OF e(5), of j] e(2) by simp
qed

theorem toggle_duplicate_flips_first_witness:
  "items (step (run (start_page list_markup Map.empty) [TypeInput ''Milk'', SubmitItem, TypeInput ''Milk'', SubmitItem])
               (ClickList (ItemText 1))) =
   [\<lparr>item_text = JStr ''Milk'', item_got = JBool True\<rparr>, \<lparr>item_text = JStr ''Milk'', item_got = JBool False\<rparr>]"
proof -
  let ?p = "run (start_page list_markup Map.empty) [TypeInput ''Milk'', SubmitItem, TypeInput ''Milk'', SubmitItem]"
  have i: "page_inv ?p" by (rule reachable_page_inv, rule reachable_run, rule reachable.start) simp
  have h: "synced ?p" "location ?p = None" "(0::nat) < 1" "1 < length (lis ?p)" "\<not> li_demo (lis ?p ! 1)"
    "li_text (lis ?p ! 0) = li_text (lis ?p ! 1)" "\<forall>n < 0. li_text (lis ?p ! n) \<noteq> li_text (lis ?p ! 1)"
    and v: "items ?p = [\<lparr>item_text = JStr ''Milk'', item_got = JBool False\<rparr>, \<lparr>item_text = JStr ''Milk'', item_got = JBool False\<rparr>]"
      "\<not> li_got (lis ?p ! 1)"
    by (simp_all add: page_eval synced_def item_view_def)
  show ?thesis using conjunct2[OF toggle_duplicate_flips_first[OF i h]] v by simp
qed

text \<open>
  C14. A stored list that is truthy but not an array and has no zero length
  (an object, a number, a non-empty string, true) makes the load handler throw
  a TypeError: nothing is shown and the profile is never loaded.
\<close>

theorem stored_nonarray_throws:
  assumes "has_list m" and "parse_item st ''shoppingList'' = Inr v" and "truthy v"
    and "case v of JArr xs \<Rightarrow> False | _ \<Rightarrow> True" and "get_prop v ''length'' \<noteq> Inr (JNum 0)"
  shows "errors (start_page m st) = [TypeError] \<and> lis (start_page m st) = [] \<and>
         profile (start_page m st) = JNull \<and> card_name (start_page m st) = None"
proof -
  have "initItems (init_page m st) = (Some TypeError, init_page m st)"
    using assms
    by (cases v) (auto simp: initItems_def init_page_def Let_def split: sum.splits)
  then show ?thesis
    using start_page_load_error[of m st TypeError] by (simp add: init_page_def report_def)
qed

theorem stored_nonarray_throws_witness:
  "has_list list_markup \<and> parse_item [''shoppingList'' \<mapsto> Json (JObj [])] ''shoppingList'' = Inr (JObj []) \<and>
   errors (start_page list_markup [''shoppingList'' \<mapsto> Json (JObj [])]) = [TypeError]"
proof -
  have a: "has_list list_markup" "parse_item [''shoppingList'' \<mapsto> Json (JObj [])] ''shoppingList'' = Inr (JObj [])"
    "truthy (JObj [])" "case JObj [] of JArr xs \<Rightarrow> False | _ \<Rightarrow> True" "get_prop (JObj []) ''length'' \<noteq> Inr (JNum 0)"
    by (simp_all add: parse_item_def)
  show ?thesis using stored_nonarray_throws[OF a] a(1,2) by simp
qed

text \<open>
  C15. A stored list whose text does not parse makes the load handler throw a
  SyntaxError before anything is shown or the profile is loaded.
\<close>

theorem stored_garbage_throws:
  "st ''shoppingList'' = Some Garbage \<Longrightarrow>
   errors (start_page m st) = [SyntaxError] \<and> lis (start_page m st) = [] \<and> profile (start_page m st) = JNull"
proof -
  assume g: "st ''shoppingList'' = Some Garbage"
  then have "initItems (init_page m st) = (Some SyntaxError, init_page m st)"
    by (simp add: initItems_def init_page_def parse_item_def)
  then show ?thesis
    using start_page_load_error[of m st SyntaxError] by (simp add: init_page_def report_def)
qed

theorem stored_garbage_throws_witness:
  "[''shoppingList'' \<mapsto> Garbage] ''shoppingList'' = Some Garbage \<and>
   errors (start_page list_markup [''shoppingList'' \<mapsto> Garbage]) = [SyntaxError]"
proof -
  have g: "[''shoppingList'' \<mapsto> Garbage] ''shoppingList'' = Some Garbage" by simp
  show ?thesis using g stored_garbage_throws[of "[''shoppingList'' \<mapsto> Garbage]" list_markup, OF g] by simp
qed

text \<open>
  C16. A stored object with a member \<open>length\<close> equal to 0 is taken for an
  empty list: the page enters demo display.
\<close>

theorem length_zero_object_demo:
  assumes "has_list m" and "parse_item st ''shoppingList'' = Inr (JObj kvs)"
    and "map_of kvs ''length'' = Some (JNum 0)"
  shows "showingDemo (start_page m st) \<and> lis (start_page m st) = demo_lis"
proof -
  have "initItems (init_page m st) = (None, (init_page m st)\<lparr>lis := demo_lis, showingDemo := True\<rparr>)"
    using assms by (simp add: initItems_def showDemoItems_def init_page_def demo_lis_def)
  then have "list_part (start_page m st) = list_part ((init_page m st)\<lparr>lis := demo_lis, showingDemo := True\<rparr>)"
    by (simp add: list_part_start_page)
  then show ?thesis by (simp add: list_part_def)
qed

theorem length_zero_object_demo_witness:
  "parse_item [''shoppingList'' \<mapsto> Json (JObj [(''length'', JNum 0)])] ''shoppingList'' = Inr (JObj [(''length'', JNum 0)]) \<and>
   showingDemo (start_page list_markup [''shoppingList'' \<mapsto> Json (JObj [(''length'', JNum 0)])])"
proof -
  have a: "has_list list_markup"
    "parse_item [''shoppingList'' \<mapsto> Json (JObj [(''length'', JNum 0)])] ''shoppingList'' = Inr (JObj [(''length'', JNum 0)])"
    "map_of [(''length'', JNum 0)] ''length'' = Some (JNum 0)"
    by (simp_all add: parse_item_def)
  show ?thesis using length_zero_object_demo[OF a] a(2) by simp
qed

text \<open>
  C17. On a page without the shopping list (a profile or registration page),
  the load handler always throws before it reaches the profile: whatever is
  stored, the profile stays null and the profile card is never filled in.
\<close>

theorem no_list_page_skips_profile:
  "\<not> has_list m \<Longrightarrow>
   length (errors (start_page m st)) = 1 \<and> profile (start_page m st) = JNull \<and>
   card_name (start_page m st) = None \<and> card_email (start_page m st) = None"
proof -
  assume nl: "\<not> has_list m"
  then have h: "fst (initItems (init_page m st)) \<noteq> None \<and> snd (initItems (init_page m st)) = init_page m st"
    by (intro initItems_no_list) (simp add: init_page_def)
  then obtain e where e: "fst (initItems (init_page m st)) = Some e" by auto
  with h have "initItems (init_page m st) = (Some e, init_page m st)"
    by (metis prod.collapse)
  then show ?thesis
    using start_page_load_error[OF e] by (simp add: init_page_def report_def)
qed

theorem no_list_page_skips_profile_witness:
  "\<not> has_list profile_markup \<and> card_name (start_page profile_markup [''userProfile'' \<mapsto> Json default_profile]) = None"
  using no_list_page_skips_profile[of profile_markup "[''userProfile'' \<mapsto> Json default_profile]"] by simp

text \<open>
  C18. On a page without the item input, pressing Escape throws a TypeError
  and changes nothing else.
\<close>

theorem escape_without_input:
  "\<not> has_list (markup p) \<Longrightarrow> location p = None \<Longrightarrow>
   step p (KeyDown ''Escape'') = p\<lparr>errors := errors p @ [TypeError]\<rparr>"
  by (simp add: step_def keyDown_def report_def)

theorem escape_without_input_witness:
  "\<not> has_list (markup (init_page profile_markup Map.empty)) \<and> location (init_page profile_markup Map.empty) = None \<and>
   errors (step (init_page profile_markup Map.empty) (KeyDown ''Escape'')) = [TypeError]"
proof -
  have a: "\<not> has_list (markup (init_page profile_markup Map.empty))" "location (init_page profile_markup Map.empty) = None"
    by (simp_all add: init_page_def)
  show ?thesis using escape_without_input[OF a] a by (simp add: init_page_def)
qed

text \<open>
  C19. Refinement of the abstract list.  As long as the entries on screen have
  distinct texts, every event moves the real entries on screen and the demo
  flag exactly as the abstract operation the event stands for moves the
  abstract list of \<open>ListSpec\<close>: add the trimmed input, toggle or remove the
  entry with the clicked text, or nothing.
\<close>

theorem step_refines_spec:
  assumes "page_inv p" and "texts_distinct p"
  shows "abs_page (step p ev) = spec_step (abs_page p) (event_op p ev)"
  using abs_page_dispatch[of p ev] assms
  by (simp add: step_def event_op_def views_report page_inv_def)

theorem step_refines_spec_witness:
  "abs_page (step (run (start_page list_markup Map.empty) [TypeInput ''Bread'', SubmitItem])
                  (ClickList (ItemText 0))) =
   \<lparr>sitems = [(''Bread'', True)], sdemo = False\<rparr>"
proof -
  let ?p = "run (start_page list_markup Map.empty) [TypeInput ''Bread'', SubmitItem]"
  have i: "page_inv ?p"
    by (rule reachable_page_inv, rule reachable_run, rule reachable.start) simp
  have d: "texts_distinct ?p" and a: "abs_page ?p = \<lparr>sitems = [(''Bread'', False)], sdemo = False\<rparr>"
    and o: "event_op ?p (ClickList (ItemText 0)) = SToggle ''Bread''"
    by (simp_all add: page_eval texts_distinct_def abs_page_def li_view_def event_op_def)
  show ?thesis using step_refines_spec[OF i d, of "ClickList (ItemText 0)"] a o by simp
qed

text \<open>
  C20. The persisted array mirrors the screen.  When \<open>items\<close> lists the real
  entries on screen in order, with their texts as strings and their checked
  state, and those texts are distinct, every event keeps it so, provided a
  submission does not repeat a text already on the list (with a repeated text
  removal and toggling go wrong, C12 and C13).
\<close>

theorem items_mirror_screen:
  assumes "page_inv p" and "synced p" and "texts_distinct p"
    and "spec_fresh (abs_page p) (event_op p ev)"
  shows "synced (step p ev) \<and> texts_distinct (step p ev)"
  using synced_dispatch[of p ev] assms
  by (cases "location p = None") (simp_all add: step_def event_op_def views_report page_inv_def)

theorem items_mirror_screen_witness:
  "synced (step (run (start_page list_markup Map.empty) [TypeInput ''Bread'', SubmitItem, TypeInput ''Milk''])
                SubmitItem)"
proof -
  let ?p = "run (start_page list_markup Map.empty) [TypeInput ''Bread'', SubmitItem, TypeInput ''Milk'']"
  have i: "page_inv ?p"
    by (rule reachable_page_inv, rule reachable_run, rule reachable.start) simp
  have "synced ?p" and "texts_distinct ?p" and "spec_fresh (abs_page ?p) (event_op ?p SubmitItem)"
    by (simp_all add: page_eval synced_def item_view_def texts_distinct_def abs_page_def li_view_def
        event_op_def)
  then show ?thesis using items_mirror_screen[OF i] by blast
qed

text \<open>
  C21. Nothing the user changes is left unsaved: after every event either the
  stored list is the JSON of the items array, or neither the array nor the
  stored list has changed.
\<close>

theorem every_change_saved:
  "saved (step p ev) \<or>
   (items (step p ev) = items p \<and> store (step p ev) ''shoppingList'' = store p ''shoppingList'')"
  using saved_or_untouched_dispatch[of ev p] by (simp add: step_def)

text \<open>
  C22. Saving and loading round trip: when the items array mirrors the screen
  and the stored list is its JSON, reloading any page with the list shows the
  same real entries in the same order with the same checked state, and the
  reloaded array again mirrors the screen.
\<close>

theorem reload_restores_list:
  assumes "synced p" and "saved p" and "has_list m"
  shows "sitems (abs_page (reload m p)) = sitems (abs_page p) \<and> synced (reload m p)"
proof -
  note r = reload_saved[OF assms(2,3)]
  have "sitems (abs_page (reload m p)) = sitems (abs_page p)"
    using r reloaded_views(1)[OF assms(1)] by (simp add: abs_page_def comp_def)
  moreover have "synced (reload m p)"
    using r reloaded_views(2)[OF assms(1)] by (simp add: synced_def comp_def)
  ultimately show ?thesis by simp
qed

theorem reload_restores_list_witness:
  "sitems (abs_page (reload list_markup
     (run (start_page list_markup Map.empty) [TypeInput ''Bread'', SubmitItem]))) = [(''Bread'', False)]"
proof -
  let ?p = "run (start_page list_markup Map.empty) [TypeInput ''Bread'', SubmitItem]"
  have s: "synced ?p" and v: "saved ?p" and a: "sitems (abs_page ?p) = [(''Bread'', False)]"
    by (simp_all add: page_eval synced_def item_view_def saved_def abs_page_def li_view_def)
  have h: "has_list list_markup" by simp
  show ?thesis using conjunct1[OF reload_restores_list[OF s v h]] a by (rule trans)
qed

text \<open>
  C23. Equivalence of the text-keyed array updates with positional ones: while
  the array mirrors the screen with distinct texts, the removal by
  \<open>items.filter\<close> on the clicked text deletes exactly the clicked position,
  and the toggle through \<open>items.find\<close> updates exactly the clicked position.
\<close>

theorem keyed_updates_positional:
  assumes "page_inv p" and "synced p" and "texts_distinct p" and "location p = None"
    and "i < length (lis p)" and "\<not> li_demo (lis p ! i)"
  shows "items (step p (ClickList (RemoveBtn i))) = remove_nth i (items p) \<and>
         items (step p (ClickList (ItemText i))) =
           (items p)[i := (items p ! i)\<lparr>item_got := JBool (\<not> li_got (lis p ! i))\<rparr>]"
proof -
  have d: "dom_inv p" using assms(1) by (simp add: page_inv_def)
  show ?thesis
    using assms(4-6) dispatch_entry[OF d, of "RemoveBtn i" i] dispatch_entry[OF d, of "ItemText i" i]
      items_removeAt_positional[OF d assms(5,6,3,2)] items_toggleAt_positional[OF d assms(5,6,3,2)]
    by (simp add: step_def clickList_def)
qed

theorem keyed_updates_positional_witness:
  "items (step (run (start_page list_markup Map.empty)
                  [TypeInput ''Bread'', SubmitItem, TypeInput ''Milk'', SubmitItem])
           (ClickList (RemoveBtn 0))) =
   [\<lparr>item_text = JStr ''Milk'', item_got = JBool False\<rparr>]"
proof -
  let ?p = "run (start_page list_markup Map.empty) [TypeInput ''Bread'', SubmitItem, TypeInput ''Milk'', SubmitItem]"
  have i: "page_inv ?p"
    by (rule reachable_page_inv, rule reachable_run, rule reachable.start) simp
  have h: "synced ?p" "texts_distinct ?p" "location ?p = None" "0 < length (lis ?p)" "\<not> li_demo (lis ?p ! 0)"
    and it: "items ?p = [\<lparr>item_text = JStr ''Bread'', item_got = JBool False\<rparr>,
                        \<lparr>item_text = JStr ''Milk'', item_got = JBool False\<rparr>]"
    by (simp_all add: page_eval synced_def item_view_def texts_distinct_def)
  show ?thesis using conjunct1[OF keyed_updates_positional[OF i h]] it by simp
qed

text \<open>
  C24. A removal whose text matches no item of the array (an entry loaded
  from a stored text that is not a string, such as the number 5, shows the
  text \<open>"5"\<close> while the item keeps the number, and \<open>!==\<close> tells them
  apart) takes the entry off the screen but leaves the array unchanged, so the
  same list is saved and a reload shows the entry again.
\<close>

theorem unmatched_text_survives_remove:
  assumes "page_inv p" and "location p = None" and "saved p" and "has_list m"
    and "i < length (lis p)" and "\<not> li_demo (lis p ! i)"
    and "\<forall>it \<in> set (items p). item_text it \<noteq> JStr (li_text (lis p ! i))"
  shows "real_lis (step p (ClickList (RemoveBtn i))) = remove_nth i (lis p) \<and>
         items (step p (ClickList (RemoveBtn i))) = items p \<and>
         real_lis (reload m (step p (ClickList (RemoveBtn i)))) = real_lis (reload m p)"
proof -
  note e = entry_step[OF assms(1,2,5,6)]
  let ?q = "step p (ClickList (RemoveBtn i))"
  have it: "items ?q = items p"
    using removeAt_fields[OF e(5), of i] e(1) assms(7) by simp
  have "saved ?q" using saved_removeAt[OF e(5), of i] e(1) by simp
  then have "real_lis (reload m ?q) = real_lis (reload m p)"
    using reload_saved[OF _ assms(4)] assms(3) it by simp
  moreover have "real_lis ?q = remove_nth i (lis p)"
    using removeAt_real_lis(2)[OF e(3) assms(5,6)] e(1) by (simp add: real_lis_def)
  ultimately show ?thesis using it by simp
qed

theorem unmatched_text_survives_remove_witness:
  "real_lis (reload list_markup
     (step (start_page list_markup [''shoppingList'' \<mapsto> Json (JArr [JObj [(''text'', JNum 5), (''got'', JBool False)]])])
           (ClickList (RemoveBtn 0)))) = [real_li ''5'' False]"
proof -
  let ?st = "[''shoppingList'' \<mapsto> Json (JArr [JObj [(''text'', JNum 5), (''got'', JBool False)]])]"
  let ?p = "start_page list_markup ?st"
  have i: "page_inv ?p" by (rule page_inv_start)
  have h: "location ?p = None" "saved ?p" "has_list list_markup" "0 < length (lis ?p)" "\<not> li_demo (lis ?p ! 0)"
    "\<forall>it \<in> set (items ?p). item_text it \<noteq> JStr (li_text (lis ?p ! 0))"
    by (simp_all add: page_eval saved_def dom_text_def int_to_dec_def nat_to_dec.simps char_of_def bit_0)
  have "real_lis (reload list_markup ?p) = [real_li ''5'' False]"
    by (simp add: page_eval dom_text_def int_to_dec_def nat_to_dec.simps char_of_def bit_0)
  then show ?thesis using unmatched_text_survives_remove[OF i h] by simp
qed

text \<open>
  C25. Simulation of whole sessions.  From a page whose array mirrors the
  screen with distinct texts, every sequence of events whose submissions do not
  repeat a text keeps the array in step, and the real entries on screen end as
  the abstract list obtained by applying the abstract operation of each event
  in turn.
\<close>

theorem run_refines_spec:
  assumes "page_inv p" and "synced p" and "texts_distinct p" and "fresh_run p evs"
  shows "abs_page (run p evs) = foldl spec_step (abs_page p) (ops_of p evs) \<and>
         synced (run p evs) \<and> texts_distinct (run p evs)"
  using assms
proof (induction evs arbitrary: p)
  case (Cons ev evs)
  note v = step_views[OF Cons.prems(1-3)]
  have "page_inv (step p ev)" using Cons.prems(1) by (rule page_inv_step)
  with v Cons.prems(4) Cons.IH[of "step p ev"] show ?case by simp
qed simp

theorem run_refines_spec_witness:
  "sitems (abs_page (run (start_page list_markup Map.empty)
     [TypeInput ''Bread'', SubmitItem, TypeInput ''Milk'', SubmitItem, ClickList (RemoveBtn 0)])) =
   [(''Milk'', False)]"
proof -
  let ?p = "start_page list_markup Map.empty"
  let ?evs = "[TypeInput ''Bread'', SubmitItem, TypeInput ''Milk'', SubmitItem, ClickList (RemoveBtn 0)]"
  have i: "page_inv ?p" by (rule page_inv_start)
  have h: "synced ?p" "texts_distinct ?p" "fresh_run ?p ?evs"
    by (simp_all add: page_eval synced_def texts_distinct_def abs_page_def li_view_def event_op_def)
  have "foldl spec_step (abs_page ?p) (ops_of ?p ?evs) = \<lparr>sitems = [(''Milk'', False)], sdemo = False\<rparr>"
    by (simp add: page_eval abs_page_def li_view_def event_op_def spec_add_def)
  then show ?thesis using conjunct1[OF run_refines_spec[OF i h]] by simp
qed

end
